theory Spec2Isabelle
  imports Complex_Main "HOL-Library.Word"
begin

section \<open>C floating-point numbers\<close>

text \<open>
  The development embeds \<^verbatim>\<open>pso_utils.c\<close> and \<^verbatim>\<open>optimize_using_omp.c\<close>.

  A C \<^verbatim>\<open>float\<close> is an IEEE 754 binary32 number and a \<^verbatim>\<open>double\<close> a binary64 number: a
  finite value (a real that the format represents), one of the two infinities, or NaN.
  Every arithmetic operation computes the exact result and rounds it to the nearest
  value of its format, ties to even, and overflows to an infinity; an expression is
  evaluated in the format of its C type (\<^verbatim>\<open>FLT_EVAL_METHOD\<close> 0, no contraction of
  products and sums). The sign of a zero is not kept: the program divides only by
  constants and by \<^verbatim>\<open>(float)RAND_MAX\<close>, the conversion of an \<^verbatim>\<open>int\<close>, so a zero divisor
  is the positive zero.
\<close>

datatype cfloat = NaN | NInf | Fin real | PInf

datatype fmt = Binary32 | Binary64

text \<open>The precision in bits and the width of the exponent field.\<close>

fun prec :: "fmt \<Rightarrow> int" where
  "prec Binary32 = 24"
| "prec Binary64 = 53"

fun ebits :: "fmt \<Rightarrow> nat" where
  "ebits Binary32 = 8"
| "ebits Binary64 = 11"

definition emax :: "fmt \<Rightarrow> int" where
  "emax f = 2 ^ (ebits f - 1) - 1"

definition emin :: "fmt \<Rightarrow> int" where
  "emin f = 1 - emax f"

text \<open>
  The exponent of the binade of \<open>a \<ge> 0\<close>: the largest \<open>e\<close> with \<open>2 ^ e \<le> a\<close>, found by
  bisection over the \<open>2 ^ ebits\<close> exponents from \<open>emin\<close> on, and \<open>emin\<close> for the subnormal
  numbers and zero.
\<close>

fun search :: "nat \<Rightarrow> real \<Rightarrow> int \<Rightarrow> int" where
  "search 0 a lo = lo"
| "search (Suc k) a lo =
     (if 2 powi (lo + 2 ^ k) \<le> a then search k a (lo + 2 ^ k) else search k a lo)"

definition expo :: "fmt \<Rightarrow> real \<Rightarrow> int" where
  "expo f a = search (ebits f) a (emin f)"

text \<open>Rounding to the nearest integer, ties to the even one.\<close>

definition rne :: "real \<Rightarrow> int" where
  "rne q = (let n = \<lfloor>q\<rfloor> in
             if q - of_int n < 1 / 2 then n
             else if 1 / 2 < q - of_int n then n + 1
             else if even n then n else n + 1)"

text \<open>Rounding to the nearest multiple of \<open>2 ^ e\<close>.\<close>

definition round_at :: "int \<Rightarrow> real \<Rightarrow> real" where
  "round_at e x = of_int (rne (x / 2 powi e)) * 2 powi e"

text \<open>The exponent of the unit in the last place of the binade of \<open>x\<close>.\<close>

definition ulp_exp :: "fmt \<Rightarrow> real \<Rightarrow> int" where
  "ulp_exp f x = expo f \<bar>x\<bar> - (prec f - 1)"

text \<open>A rounded value of magnitude \<open>2 ^ (emax + 1)\<close> or more is an infinity.\<close>

definition classify :: "fmt \<Rightarrow> real \<Rightarrow> cfloat" where
  "classify f r = (if 2 powi (emax f + 1) \<le> r then PInf
                   else if r \<le> - (2 powi (emax f + 1)) then NInf else Fin r)"

text \<open>
  The value of format \<open>f\<close> that the exact result \<open>x\<close> rounds to: \<open>x\<close> is rounded to a
  multiple of the unit in the last place of its binade, then tested for overflow.
\<close>

definition ru :: "fmt \<Rightarrow> real \<Rightarrow> real" where
  "ru f x = round_at (ulp_exp f x) x"

definition rnd :: "fmt \<Rightarrow> real \<Rightarrow> cfloat" where
  "rnd f x = classify f (ru f x)"

fun fneg :: "cfloat \<Rightarrow> cfloat" where
  "fneg NaN = NaN"
| "fneg NInf = PInf"
| "fneg PInf = NInf"
| "fneg (Fin a) = Fin (- a)"

text \<open>\<^verbatim>\<open>fabsf\<close> and \<^verbatim>\<open>fabs\<close>.\<close>

fun fabs :: "cfloat \<Rightarrow> cfloat" where
  "fabs NaN = NaN"
| "fabs NInf = PInf"
| "fabs PInf = PInf"
| "fabs (Fin a) = Fin \<bar>a\<bar>"

fun fadd :: "fmt \<Rightarrow> cfloat \<Rightarrow> cfloat \<Rightarrow> cfloat" where
  "fadd f (Fin a) (Fin b) = rnd f (a + b)"
| "fadd f NaN _ = NaN"
| "fadd f _ NaN = NaN"
| "fadd f PInf NInf = NaN"
| "fadd f NInf PInf = NaN"
| "fadd f PInf _ = PInf"
| "fadd f _ PInf = PInf"
| "fadd f NInf _ = NInf"
| "fadd f _ NInf = NInf"

definition fsub :: "fmt \<Rightarrow> cfloat \<Rightarrow> cfloat \<Rightarrow> cfloat" where
  "fsub f a b = fadd f a (fneg b)"

fun fmul :: "fmt \<Rightarrow> cfloat \<Rightarrow> cfloat \<Rightarrow> cfloat" where
  "fmul f (Fin a) (Fin b) = rnd f (a * b)"
| "fmul f NaN _ = NaN"
| "fmul f _ NaN = NaN"
| "fmul f (Fin a) PInf = (if a = 0 then NaN else if 0 < a then PInf else NInf)"
| "fmul f (Fin a) NInf = (if a = 0 then NaN else if 0 < a then NInf else PInf)"
| "fmul f PInf (Fin b) = (if b = 0 then NaN else if 0 < b then PInf else NInf)"
| "fmul f NInf (Fin b) = (if b = 0 then NaN else if 0 < b then NInf else PInf)"
| "fmul f PInf PInf = PInf"
| "fmul f NInf NInf = PInf"
| "fmul f PInf NInf = NInf"
| "fmul f NInf PInf = NInf"

fun fdiv :: "fmt \<Rightarrow> cfloat \<Rightarrow> cfloat \<Rightarrow> cfloat" where
  "fdiv f (Fin a) (Fin b) =
     (if b = 0 then (if a = 0 then NaN else if 0 < a then PInf else NInf) else rnd f (a / b))"
| "fdiv f NaN _ = NaN"
| "fdiv f _ NaN = NaN"
| "fdiv f (Fin a) _ = Fin 0"
| "fdiv f PInf (Fin b) = (if 0 \<le> b then PInf else NInf)"
| "fdiv f NInf (Fin b) = (if 0 \<le> b then NInf else PInf)"
| "fdiv f _ _ = NaN"

text \<open>The C comparison \<^verbatim>\<open>a < b\<close> on floats: false as soon as one side is NaN.\<close>

fun flt :: "cfloat \<Rightarrow> cfloat \<Rightarrow> bool" where
  "flt NaN _ = False"
| "flt _ NaN = False"
| "flt PInf _ = False"
| "flt _ NInf = False"
| "flt NInf _ = True"
| "flt _ PInf = True"
| "flt (Fin a) (Fin b) = (a < b)"

text \<open>The C comparison \<^verbatim>\<open>a > b\<close>.\<close>

definition fgt :: "cfloat \<Rightarrow> cfloat \<Rightarrow> bool" where
  "fgt a b = flt b a"

text \<open>The C comparison \<^verbatim>\<open>a == b\<close>: NaN is equal to nothing.\<close>

fun feq :: "cfloat \<Rightarrow> cfloat \<Rightarrow> bool" where
  "feq NaN _ = False"
| "feq _ NaN = False"
| "feq a b = (a = b)"

text \<open>The C comparison \<^verbatim>\<open>a <= b\<close>.\<close>

fun fle :: "cfloat \<Rightarrow> cfloat \<Rightarrow> bool" where
  "fle NaN _ = False"
| "fle _ NaN = False"
| "fle NInf _ = True"
| "fle _ PInf = True"
| "fle PInf _ = False"
| "fle _ NInf = False"
| "fle (Fin a) (Fin b) = (a \<le> b)"

fun is_finite :: "cfloat \<Rightarrow> bool" where
  "is_finite (Fin _) = True"
| "is_finite _ = False"

text \<open>The value of a finite float.\<close>

fun fval :: "cfloat \<Rightarrow> real" where
  "fval (Fin r) = r"
| "fval _ = 0"

text \<open>A real is a \<^verbatim>\<open>float\<close> when rounding to binary32 leaves it as it is.\<close>

definition is_float :: "real \<Rightarrow> bool" where
  "is_float x \<longleftrightarrow> rnd Binary32 x = Fin x"

text \<open>A finite float between two reals.\<close>

definition frange :: "real \<Rightarrow> real \<Rightarrow> cfloat \<Rightarrow> bool" where
  "frange lo hi a \<longleftrightarrow> fle (Fin lo) a \<and> fle a (Fin hi)"

text \<open>
  The conversions: a \<^verbatim>\<open>double\<close> to \<^verbatim>\<open>float\<close> rounds, an \<^verbatim>\<open>int\<close> to \<^verbatim>\<open>float\<close> or \<^verbatim>\<open>double\<close>
  rounds; a \<^verbatim>\<open>float\<close> is a \<^verbatim>\<open>double\<close> as it is.
\<close>

fun to_float :: "cfloat \<Rightarrow> cfloat" where
  "to_float (Fin r) = rnd Binary32 r"
| "to_float a = a"

definition float_of_int :: "int \<Rightarrow> cfloat" where
  "float_of_int i = rnd Binary32 (of_int i)"

definition double_of_int :: "int \<Rightarrow> cfloat" where
  "double_of_int i = rnd Binary64 (of_int i)"

text \<open>The constant \<^verbatim>\<open>M_PI\<close> of \<^verbatim>\<open>math.h\<close>, a \<^verbatim>\<open>double\<close>.\<close>

definition M_PI :: cfloat where
  "M_PI = rnd Binary64 (314159265358979323846 / 10 ^ 20)"

section \<open>The data model\<close>

text \<open>
  \<^verbatim>\<open>particle_t\<close>. A vector is the list of the cells the program has stored a value in; a
  pointer that is \<^verbatim>\<open>NULL\<close> (the program never tests the result of \<^verbatim>\<open>malloc\<close> for a
  vector) or that points to a block of no cell is the empty list. Reading or writing a
  cell that is not there is undefined behaviour.
\<close>

record particle_t =
  p_dim :: int
  p_x :: "cfloat list"
  p_v :: "cfloat list"
  p_pbest :: "cfloat list"
  p_fitness :: cfloat
  p_g :: int

text \<open>
  \<^verbatim>\<open>swarm_t\<close> is the array of particles; \<^verbatim>\<open>num_particles\<close> is its length.
\<close>

type_synonym swarm_t = "particle_t list"

type_synonym seed_t = "32 word"

datatype error = MallocError | UnknownFunction | UndefinedBehaviour

text \<open>A step that may fail, followed by another.\<close>

definition bindE :: "error + 'a \<Rightarrow> ('a \<Rightarrow> error + 'b) \<Rightarrow> error + 'b" where
  "bindE m k = (case m of Inl e \<Rightarrow> Inl e | Inr x \<Rightarrow> k x)"

text \<open>
  What the program takes from the C library, from OpenMP and from memory it never
  initialised. The source fixes none of these, so every definition takes them as a
  parameter:
  \<^item> \<open>rand_r\<close> and \<open>RAND_MAX\<close> of the C library (\<open>rand_r\<close> returns the draw and the
    new content of the seed);
  \<^item> \<open>time_now\<close>, the value of \<^verbatim>\<open>time(NULL)\<close> converted to \<^verbatim>\<open>unsigned int\<close>;
  \<^item> \<open>c_sin\<close>, \<open>c_cos\<close>, \<open>c_sqrt\<close>, \<open>c_exp\<close> and \<open>c_pow\<close>, the functions of \<^verbatim>\<open>math.h\<close> on
    \<^verbatim>\<open>double\<close>, whose results C does not fix to the last bit;
  \<^item> \<open>schedule n p\<close>, the iterations \<open>0..<n\<close> of an \<^verbatim>\<open>omp for\<close> loop of \<^verbatim>\<open>pso_init_omp\<close>
    or \<^verbatim>\<open>optimize_using_omp\<close> as OpenMP hands them to the \<open>p\<close> threads of the team, one
    list per thread, in the order the thread runs them;
  \<^item> \<open>reducer_schedule n p\<close>, the same for the loop of \<^verbatim>\<open>pso_get_best_fitness_omp\<close>,
    whose parallel region is nested in that of its caller (OpenMP then gives it a team
    of one thread unless nesting is enabled: all iterations in the first list);
  \<^item> \<open>malloc_ok k n\<close>, whether \<^verbatim>\<open>malloc\<close> returns a block for a request of \<open>n\<close> bytes
    when \<open>k\<close> blocks are allocated;
  \<^item> \<open>sizeof_swarm\<close> and \<open>sizeof_particle\<close>, the sizes of the two structures in bytes
    (their declarations are in \<^verbatim>\<open>pso.h\<close>);
  \<^item> \<open>heap_particle i\<close>, the content of slot \<open>i\<close> of the particle array as
    \<^verbatim>\<open>malloc\<close> returns it;
  \<^item> \<open>stack_g t\<close>, the content of \<^verbatim>\<open>local_g[t]\<close> before anything is stored there;
  \<^item> \<open>stack_seed r t\<close> and \<open>stack_fitness r t\<close>, the content of the private copies
    of \<^verbatim>\<open>seed\<close> and of \<^verbatim>\<open>fitness\<close> or \<^verbatim>\<open>curr_fitness\<close> of thread \<open>t\<close> when parallel
    region \<open>r\<close> starts (a \<^verbatim>\<open>private\<close> copy is not initialised); region 0 is that of
    \<^verbatim>\<open>pso_init_omp\<close>, where the seed is shared and only \<^verbatim>\<open>fitness\<close> is private, region
    \<open>k + 1\<close> that of iteration \<open>k\<close> of the main loop.

  An \<^verbatim>\<open>int\<close> has 32 bits and \<^verbatim>\<open>size_t\<close> 64. A parallel loop is run one thread after
  the other, each thread over the iterations the schedule hands it; what the
  interleaving of the threads adds to that (the unsynchronised updates of the shared
  seed of \<^verbatim>\<open>pso_init_omp\<close>, a read of \<^verbatim>\<open>gbest->x[j]\<close> while another thread moves that
  particle) is outside the model.
\<close>

record platform =
  rand_r :: "seed_t \<Rightarrow> int \<times> seed_t"
  RAND_MAX :: int
  time_now :: seed_t
  c_sin :: "cfloat \<Rightarrow> cfloat"
  c_cos :: "cfloat \<Rightarrow> cfloat"
  c_sqrt :: "cfloat \<Rightarrow> cfloat"
  c_exp :: "cfloat \<Rightarrow> cfloat"
  c_pow :: "cfloat \<Rightarrow> cfloat \<Rightarrow> cfloat"
  schedule :: "nat \<Rightarrow> nat \<Rightarrow> nat list list"
  reducer_schedule :: "nat \<Rightarrow> nat \<Rightarrow> nat list list"
  malloc_ok :: "nat \<Rightarrow> nat \<Rightarrow> bool"
  sizeof_swarm :: nat
  sizeof_particle :: nat
  heap_particle :: "nat \<Rightarrow> particle_t"
  stack_g :: "nat \<Rightarrow> int"
  stack_seed :: "nat \<Rightarrow> nat \<Rightarrow> seed_t"
  stack_fitness :: "nat \<Rightarrow> nat \<Rightarrow> cfloat"

text \<open>
  A schedule is valid when it has one list per thread and hands out every iteration
  exactly once.
\<close>

definition valid_schedule :: "nat list list \<Rightarrow> nat \<Rightarrow> nat \<Rightarrow> bool" where
  "valid_schedule parts n p \<longleftrightarrow>
     length parts = p \<and> distinct (concat parts) \<and> set (concat parts) = {0..<n}"

text \<open>
  The contract of \<open>rand_r\<close>: a draw lies between 0 and \<open>RAND_MAX\<close>, which is a positive
  \<^verbatim>\<open>int\<close>.
\<close>

definition rand_ok :: "platform \<Rightarrow> bool" where
  "rand_ok env \<longleftrightarrow>
     0 < RAND_MAX env \<and> RAND_MAX env < 2 ^ 31 \<and>
     (\<forall>s. 0 \<le> fst (rand_r env s) \<and> fst (rand_r env s) \<le> RAND_MAX env)"

text \<open>Memory is available when every request is granted.\<close>

definition mem_ok :: "platform \<Rightarrow> bool" where
  "mem_ok env \<longleftrightarrow> (\<forall>k n. malloc_ok env k n)"

text \<open>A read of \<^verbatim>\<open>vec[i]\<close>.\<close>

definition rd :: "cfloat list \<Rightarrow> nat \<Rightarrow> error + cfloat" where
  "rd xs i = (if i < length xs then Inr (xs ! i) else Inl UndefinedBehaviour)"

section \<open>Random numbers\<close>

text \<open>\<^verbatim>\<open>(float)rand_r(&seed)/(float)RAND_MAX\<close>, and the new content of the seed.\<close>

definition draw :: "platform \<Rightarrow> seed_t \<Rightarrow> cfloat \<times> seed_t" where
  "draw env seed =
     (let (r, seed') = rand_r env seed
      in (fdiv Binary32 (float_of_int r) (float_of_int (RAND_MAX env)), seed'))"

text \<open>\<^verbatim>\<open>uniform_omp\<close>: one draw, scaled into the range; returns the new seed as well.\<close>

definition uniform_omp :: "platform \<Rightarrow> cfloat \<Rightarrow> cfloat \<Rightarrow> seed_t \<Rightarrow> cfloat \<times> seed_t" where
  "uniform_omp env mn mx seed =
     (let (r, seed') = rand_r env seed;
          normalized = fdiv Binary32 (float_of_int r) (float_of_int (RAND_MAX env))
      in (fadd Binary32 mn (fmul Binary32 normalized (fsub Binary32 mx mn)), seed'))"

section \<open>Objective functions\<close>

text \<open>
  The objectives compute partly in \<^verbatim>\<open>float\<close> and partly in \<^verbatim>\<open>double\<close>, as the types of
  the C expressions say, and return a \<^verbatim>\<open>float\<close>.
\<close>

definition pso_eval_eggholder :: "platform \<Rightarrow> particle_t \<Rightarrow> error + cfloat" where
  "pso_eval_eggholder env particle =
     bindE (rd (p_x particle) 0) (\<lambda>x0.
     bindE (rd (p_x particle) 1) (\<lambda>x1.
       Inr (to_float
         (fsub Binary64
            (fmul Binary64 (fneg (fadd Binary32 x1 (float_of_int 47)))
               (c_sin env (c_sqrt env (fabs
                  (fadd Binary32 (fadd Binary32 (fdiv Binary32 x0 (float_of_int 2)) x1)
                     (float_of_int 47))))))
            (fmul Binary64 x0
               (c_sin env (c_sqrt env (fabs
                  (fsub Binary32 x0 (fadd Binary32 x1 (float_of_int 47)))))))))))"

text \<open>The loop of \<^verbatim>\<open>pso_eval_schwefel\<close> on the \<^verbatim>\<open>float\<close> variable \<^verbatim>\<open>sum\<close>.\<close>

fun schwefel_loop :: "platform \<Rightarrow> particle_t \<Rightarrow> nat list \<Rightarrow> cfloat \<Rightarrow> error + cfloat" where
  "schwefel_loop env particle [] sm = Inr sm"
| "schwefel_loop env particle (i # rest) sm =
     bindE (rd (p_x particle) i) (\<lambda>xi.
       schwefel_loop env particle rest
         (to_float (fadd Binary64 sm
            (fmul Binary64 xi (c_sin env (c_sqrt env (fabs xi)))))))"

definition pso_eval_schwefel :: "platform \<Rightarrow> particle_t \<Rightarrow> error + cfloat" where
  "pso_eval_schwefel env particle =
     bindE (schwefel_loop env particle [0..<nat (p_dim particle)] (float_of_int 0)) (\<lambda>sm.
       Inr (to_float
         (fsub Binary64
            (fmul Binary64 (rnd Binary64 (4189829 / 10000)) (double_of_int (p_dim particle)))
            sm)))"

definition pso_eval_holder_table :: "platform \<Rightarrow> particle_t \<Rightarrow> error + cfloat" where
  "pso_eval_holder_table env particle =
     bindE (rd (p_x particle) 0) (\<lambda>x0.
     bindE (rd (p_x particle) 1) (\<lambda>x1.
       Inr (fneg (fabs (to_float
         (fmul Binary64 (fmul Binary64 (c_sin env x0) (c_cos env x1))
            (c_exp env (fabs (to_float
               (fsub Binary64 (double_of_int 1)
                  (fdiv Binary64
                     (c_sqrt env (fadd Binary64 (c_pow env x0 (double_of_int 2))
                                                (c_pow env x1 (double_of_int 2))))
                     M_PI)))))))))))"

text \<open>The loop of \<^verbatim>\<open>pso_eval_rastrigin\<close> on the \<^verbatim>\<open>float\<close> variable \<^verbatim>\<open>fitness\<close>.\<close>

fun rastrigin_loop :: "platform \<Rightarrow> particle_t \<Rightarrow> nat list \<Rightarrow> cfloat \<Rightarrow> error + cfloat" where
  "rastrigin_loop env particle [] fitness = Inr fitness"
| "rastrigin_loop env particle (i # rest) fitness =
     bindE (rd (p_x particle) i) (\<lambda>xi.
       rastrigin_loop env particle rest
         (to_float (fadd Binary64 fitness
            (fsub Binary64 (c_pow env xi (double_of_int 2))
               (fmul Binary64 (double_of_int 10)
                  (c_cos env (fmul Binary64 (fmul Binary64 (double_of_int 2) M_PI) xi)))))))"

text \<open>
  \<^verbatim>\<open>10 * particle->dim\<close> is a product of two \<^verbatim>\<open>int\<close>: beyond the range of \<^verbatim>\<open>int\<close> it is
  undefined behaviour.
\<close>

definition pso_eval_rastrigin :: "platform \<Rightarrow> particle_t \<Rightarrow> error + cfloat" where
  "pso_eval_rastrigin env particle =
     (if 10 * p_dim particle < - (2 ^ 31) \<or> 2 ^ 31 \<le> 10 * p_dim particle
      then Inl UndefinedBehaviour
      else rastrigin_loop env particle [0..<nat (p_dim particle)]
             (float_of_int (10 * p_dim particle)))"

definition pso_eval_booth :: "platform \<Rightarrow> particle_t \<Rightarrow> error + cfloat" where
  "pso_eval_booth env particle =
     bindE (rd (p_x particle) 0) (\<lambda>x0.
     bindE (rd (p_x particle) 1) (\<lambda>x1.
       Inr (to_float
         (fadd Binary64
            (c_pow env
               (fsub Binary32 (fadd Binary32 x0 (fmul Binary32 (float_of_int 2) x1))
                  (float_of_int 7))
               (double_of_int 2))
            (c_pow env
               (fsub Binary32 (fadd Binary32 (fmul Binary32 (float_of_int 2) x0) x1)
                  (float_of_int 5))
               (double_of_int 2))))))"

text \<open>The names \<open>pso_eval_fitness\<close> knows, and the objective each one selects.\<close>

definition known_function :: "string \<Rightarrow> bool" where
  "known_function f \<longleftrightarrow>
     f \<in> {''booth'', ''rastrigin'', ''holder_table'', ''eggholder'', ''schwefel''}"

definition score :: "platform \<Rightarrow> string \<Rightarrow> particle_t \<Rightarrow> error + cfloat" where
  "score env f particle =
     (if f = ''booth'' then pso_eval_booth env particle
      else if f = ''rastrigin'' then pso_eval_rastrigin env particle
      else if f = ''holder_table'' then pso_eval_holder_table env particle
      else if f = ''eggholder'' then pso_eval_eggholder env particle
      else pso_eval_schwefel env particle)"

text \<open>
  \<^verbatim>\<open>pso_eval_fitness\<close>: the status and the content of \<^verbatim>\<open>*fitness\<close> afterwards
  (\<open>fitness\<close> is its content before). The particle is only read.
\<close>

definition pso_eval_fitness ::
  "platform \<Rightarrow> string \<Rightarrow> particle_t \<Rightarrow> cfloat \<Rightarrow> error + (int \<times> cfloat)" where
  "pso_eval_fitness env function particle fitness =
     (if function = ''booth''
      then bindE (pso_eval_booth env particle) (\<lambda>v. Inr (0, v))
      else if function = ''rastrigin''
      then bindE (pso_eval_rastrigin env particle) (\<lambda>v. Inr (0, v))
      else if function = ''holder_table''
      then bindE (pso_eval_holder_table env particle) (\<lambda>v. Inr (0, v))
      else if function = ''eggholder''
      then bindE (pso_eval_eggholder env particle) (\<lambda>v. Inr (0, v))
      else if function = ''schwefel''
      then bindE (pso_eval_schwefel env particle) (\<lambda>v. Inr (0, v))
      else Inr (- 1, fitness))"

section \<open>The global-best reducer\<close>

text \<open>
  The \<^verbatim>\<open>omp for\<close> loop of \<^verbatim>\<open>pso_get_best_fitness_omp\<close> as one thread runs it over its
  iterations: the state is the pair \<^verbatim>\<open>(local_fitness[tid], local_g[tid])\<close>.
\<close>

fun local_scan :: "swarm_t \<Rightarrow> nat list \<Rightarrow> cfloat \<times> int \<Rightarrow> cfloat \<times> int" where
  "local_scan swarm [] st = st"
| "local_scan swarm (i # rest) (lf, lg) =
     local_scan swarm rest
       (if flt (p_fitness (swarm ! i)) lf then (p_fitness (swarm ! i), int i) else (lf, lg))"

text \<open>The loop of \<^verbatim>\<open>min\<close>, from \<^verbatim>\<open>res = input[0]\<close>.\<close>

fun min_loop :: "cfloat \<Rightarrow> cfloat list \<Rightarrow> cfloat" where
  "min_loop res [] = res"
| "min_loop res (y # ys) = min_loop (if fgt res y then y else res) ys"

text \<open>\<^verbatim>\<open>min\<close> reads \<^verbatim>\<open>input[0]\<close> first: on an empty array that is a read out of bounds.\<close>

definition fmin :: "cfloat list \<Rightarrow> error + cfloat" where
  "fmin input = (case input of [] \<Rightarrow> Inl UndefinedBehaviour | y # ys \<Rightarrow> Inr (min_loop y input))"

text \<open>The merge loop: a local fitness equal to the minimum overwrites \<^verbatim>\<open>global_g\<close>.\<close>

fun merge_loop :: "cfloat \<Rightarrow> (cfloat \<times> int) list \<Rightarrow> int \<Rightarrow> int" where
  "merge_loop fitness [] global_g = global_g"
| "merge_loop fitness ((lf, lg) # locals) global_g =
     merge_loop fitness locals (if feq lf fitness then lg else global_g)"

text \<open>
  \<^verbatim>\<open>pso_get_best_fitness_omp\<close>. Thread \<open>t\<close> starts from
  \<^verbatim>\<open>local_fitness[t] = INFINITY\<close> and from whatever \<^verbatim>\<open>local_g[t]\<close> holds. A team of
  no thread (arrays of no element, then \<^verbatim>\<open>local_g[0]\<close>) is undefined behaviour.
\<close>

definition pso_get_best_fitness_omp :: "platform \<Rightarrow> swarm_t \<Rightarrow> int \<Rightarrow> error + int" where
  "pso_get_best_fitness_omp env swarm num_threads =
     (if num_threads \<le> 0 then Inl UndefinedBehaviour
      else
        let parts = reducer_schedule env (length swarm) (nat num_threads);
            locals = map (\<lambda>t. local_scan swarm (parts ! t) (PInf, stack_g env t))
                       [0..<nat num_threads]
        in case fmin (map fst locals) of
             Inl e \<Rightarrow> Inl e
           | Inr fitness \<Rightarrow> Inr (merge_loop fitness locals (snd (locals ! 0))))"

text \<open>
  The serial \<^verbatim>\<open>pso_get_best_fitness\<close>, for comparison: \<open>g\<close> starts at -1 and is returned
  when no fitness is below \<^verbatim>\<open>INFINITY\<close>.
\<close>

fun best_scan :: "swarm_t \<Rightarrow> nat list \<Rightarrow> cfloat \<times> int \<Rightarrow> cfloat \<times> int" where
  "best_scan swarm [] st = st"
| "best_scan swarm (i # rest) (best_fitness, g) =
     best_scan swarm rest
       (if flt (p_fitness (swarm ! i)) best_fitness then (p_fitness (swarm ! i), int i)
        else (best_fitness, g))"

definition pso_get_best_fitness :: "swarm_t \<Rightarrow> int" where
  "pso_get_best_fitness swarm = snd (best_scan swarm [0..<length swarm] (PInf, - 1))"

section \<open>Initialisation\<close>

text \<open>
  The size in bytes that \<^verbatim>\<open>n * sizeof(T)\<close> asks \<^verbatim>\<open>malloc\<close> for: the \<^verbatim>\<open>int\<close> is converted
  to \<^verbatim>\<open>size_t\<close> and the product wraps around.
\<close>

definition alloc_bytes :: "int \<Rightarrow> nat \<Rightarrow> nat" where
  "alloc_bytes n sz = nat ((n * int sz) mod 2 ^ 64)"

text \<open>
  The loop \<^verbatim>\<open>for (j = 0; j < dim; j++) vec[j] = uniform_omp(lo, hi, &seed)\<close> on a block
  of \<open>n\<close> cells: the vector it leaves and the seed.
\<close>

fun fill_uniform :: "platform \<Rightarrow> cfloat \<Rightarrow> cfloat \<Rightarrow> nat \<Rightarrow> seed_t \<Rightarrow> cfloat list \<times> seed_t" where
  "fill_uniform env lo hi 0 seed = ([], seed)"
| "fill_uniform env lo hi (Suc n) seed =
     (let (u, seed1) = uniform_omp env lo hi seed;
          (us, seed2) = fill_uniform env lo hi n seed1
      in (u # us, seed2))"

text \<open>
  The same loop after \<^verbatim>\<open>malloc\<close>, whose result (\<open>ok\<close>: a block) the program does not
  test: with \<open>dim \<le> 0\<close> nothing is stored, with no block the first store goes through
  \<^verbatim>\<open>NULL\<close>.
\<close>

definition alloc_fill ::
  "platform \<Rightarrow> bool \<Rightarrow> cfloat \<Rightarrow> cfloat \<Rightarrow> int \<Rightarrow> seed_t \<Rightarrow> error + (cfloat list \<times> seed_t)" where
  "alloc_fill env ok lo hi ndim seed =
     (if ndim \<le> 0 then Inr ([], seed)
      else if ok then Inr (fill_uniform env lo hi (nat ndim) seed)
      else Inl UndefinedBehaviour)"

text \<open>The loop \<^verbatim>\<open>for (j = 0; j < dim; j++) pbest[j] = x[j]\<close>.\<close>

fun copy_loop :: "cfloat list \<Rightarrow> nat list \<Rightarrow> cfloat list \<Rightarrow> error + cfloat list" where
  "copy_loop xs [] pb = Inr pb"
| "copy_loop xs (j # js) pb =
     bindE (rd xs j) (\<lambda>xj.
       if j < length pb then copy_loop xs js (pb[j := xj]) else Inl UndefinedBehaviour)"

text \<open>
  The body of the loop of \<^verbatim>\<open>pso_init_omp\<close> for particle \<open>i\<close>. The state is the
  particle array, the shared seed and the number of blocks \<^verbatim>\<open>malloc\<close> has handed out
  so far (the source keeps no such count: it is there to say what exists when the run
  stops). \<open>fitness0\<close> is the content of the private variable \<^verbatim>\<open>fitness\<close> before the
  call. \<^verbatim>\<open>exit(EXIT_FAILURE)\<close> and undefined behaviour are the result \<open>Inl\<close>.
\<close>

definition init_particle ::
  "platform \<Rightarrow> string \<Rightarrow> int \<Rightarrow> cfloat \<Rightarrow> cfloat \<Rightarrow> cfloat \<Rightarrow> nat \<Rightarrow> swarm_t \<times> seed_t \<times> nat
     \<Rightarrow> (error \<times> nat) + (swarm_t \<times> seed_t \<times> nat)" where
  "init_particle env function ndim xmin xmax fitness0 i st =
     (case st of (swarm, seed, live) \<Rightarrow>
        let seed1 = seed + of_nat i;
            particle = (swarm ! i)\<lparr>p_dim := ndim\<rparr>;
            ok_x = malloc_ok env live (alloc_bytes ndim 4);
            live1 = (if ok_x then live + 1 else live)
        in case alloc_fill env ok_x xmin xmax ndim seed1 of
             Inl e \<Rightarrow> Inl (e, live1)
           | Inr (xs, seed2) \<Rightarrow>
        let particle = particle\<lparr>p_x := xs\<rparr>;
            ok_v = malloc_ok env live1 (alloc_bytes ndim 4);
            live2 = (if ok_v then live1 + 1 else live1)
        in case alloc_fill env ok_v (fneg (fabs (fsub Binary32 xmax xmin)))
                  (fabs (fsub Binary32 xmax xmin)) ndim seed2 of
             Inl e \<Rightarrow> Inl (e, live2)
           | Inr (vs, seed3) \<Rightarrow>
        let particle = particle\<lparr>p_v := vs\<rparr>;
            ok_p = malloc_ok env live2 (alloc_bytes ndim 4);
            live3 = (if ok_p then live2 + 1 else live2)
        in case copy_loop (p_x particle) [0..<nat ndim]
                  (if ok_p then replicate (nat ndim) NaN else []) of
             Inl e \<Rightarrow> Inl (e, live3)
           | Inr pb \<Rightarrow>
        let particle = particle\<lparr>p_pbest := pb\<rparr>
        in case pso_eval_fitness env function particle fitness0 of
             Inl e \<Rightarrow> Inl (e, live3)
           | Inr (status, fitness) \<Rightarrow>
               if status < 0 then Inl (UnknownFunction, live3)
               else Inr (swarm[i := particle\<lparr>p_fitness := fitness, p_g := - 1\<rparr>], seed3, live3))"

text \<open>One thread of the team runs the body over its iterations.\<close>

fun init_thread ::
  "platform \<Rightarrow> string \<Rightarrow> int \<Rightarrow> cfloat \<Rightarrow> cfloat \<Rightarrow> cfloat \<Rightarrow> nat list \<Rightarrow> swarm_t \<times> seed_t \<times> nat
     \<Rightarrow> (error \<times> nat) + (swarm_t \<times> seed_t \<times> nat)" where
  "init_thread env function ndim xmin xmax fitness0 [] st = Inr st"
| "init_thread env function ndim xmin xmax fitness0 (i # rest) st =
     (case init_particle env function ndim xmin xmax fitness0 i st of
        Inl e \<Rightarrow> Inl e
      | Inr st' \<Rightarrow> init_thread env function ndim xmin xmax fitness0 rest st')"

text \<open>
  The parallel loop, one thread after the other (the seed is shared, so the order of
  the threads is a choice of the model; the properties proved hold for every seed).
\<close>

fun init_phase ::
  "platform \<Rightarrow> string \<Rightarrow> int \<Rightarrow> cfloat \<Rightarrow> cfloat \<Rightarrow> nat list list \<Rightarrow> nat list
     \<Rightarrow> swarm_t \<times> seed_t \<times> nat \<Rightarrow> (error \<times> nat) + (swarm_t \<times> seed_t \<times> nat)" where
  "init_phase env function ndim xmin xmax parts [] st = Inr st"
| "init_phase env function ndim xmin xmax parts (t # ts) st =
     (case init_thread env function ndim xmin xmax (stack_fitness env 0 t) (parts ! t) st of
        Inl e \<Rightarrow> Inl e
      | Inr st' \<Rightarrow> init_phase env function ndim xmin xmax parts ts st')"

text \<open>The loop that stores \<open>g\<close> in every particle.\<close>

definition broadcast :: "int \<Rightarrow> swarm_t \<Rightarrow> swarm_t" where
  "broadcast gb swarm = map (\<lambda>particle. particle\<lparr>p_g := gb\<rparr>) swarm"

text \<open>
  \<^verbatim>\<open>pso_init_omp\<close>. The \<^verbatim>\<open>swarm_t\<close> block is the first allocation, and the program
  stores \<^verbatim>\<open>num_particles\<close> in it without a test; the particle array is the second, the
  only one whose result is tested. \<open>Inl\<close> carries the error and the number of blocks
  allocated when the run stops.
\<close>

definition pso_init_omp ::
  "platform \<Rightarrow> string \<Rightarrow> int \<Rightarrow> int \<Rightarrow> cfloat \<Rightarrow> cfloat \<Rightarrow> int \<Rightarrow> (error \<times> nat) + swarm_t" where
  "pso_init_omp env function ndim swarm_size xmin xmax num_threads =
     (if \<not> malloc_ok env 0 (sizeof_swarm env) then Inl (UndefinedBehaviour, 0)
      else if \<not> malloc_ok env 1 (alloc_bytes swarm_size (sizeof_particle env))
      then Inl (MallocError, 1)
      else
        let swarm = map (heap_particle env) [0..<nat swarm_size];
            parts = schedule env (nat swarm_size) (nat num_threads)
        in case init_phase env function ndim xmin xmax parts [0..<nat num_threads]
                  (swarm, time_now env, 2) of
             Inl e \<Rightarrow> Inl e
           | Inr (swarm1, seed, live) \<Rightarrow>
               (case pso_get_best_fitness_omp env swarm1 num_threads of
                  Inl e \<Rightarrow> Inl (e, live)
                | Inr gb \<Rightarrow> Inr (broadcast gb swarm1)))"

section \<open>The update step\<close>

text \<open>The coefficients: \<^verbatim>\<open>double\<close> constants stored in \<^verbatim>\<open>float\<close> variables.\<close>

definition coef_w :: cfloat where "coef_w = to_float (rnd Binary64 (79 / 100))"
definition coef_c1 :: cfloat where "coef_c1 = to_float (rnd Binary64 (149 / 100))"
definition coef_c2 :: cfloat where "coef_c2 = to_float (rnd Binary64 (149 / 100))"

text \<open>
  The velocity as line 53 computes it, before the clamp, from \<^verbatim>\<open>v[j]\<close>, \<^verbatim>\<open>pbest[j]\<close>,
  \<^verbatim>\<open>x[j]\<close>, \<^verbatim>\<open>gbest->x[j]\<close> and the two draws.
\<close>

definition new_velocity ::
  "cfloat \<Rightarrow> cfloat \<Rightarrow> cfloat \<Rightarrow> cfloat \<Rightarrow> cfloat \<Rightarrow> cfloat \<Rightarrow> cfloat" where
  "new_velocity vj pbj xj gxj r1 r2 =
     fadd Binary32
       (fadd Binary32 (fmul Binary32 coef_w vj)
          (fmul Binary32 (fmul Binary32 coef_c1 r1) (fsub Binary32 pbj xj)))
       (fmul Binary32 (fmul Binary32 coef_c2 r2) (fsub Binary32 gxj xj))"

text \<open>Lines 57 and 58: a velocity outside the range is drawn again.\<close>

definition resample ::
  "platform \<Rightarrow> cfloat \<Rightarrow> cfloat \<Rightarrow> cfloat \<Rightarrow> seed_t \<Rightarrow> cfloat \<times> seed_t" where
  "resample env xmin xmax vj seed =
     (if flt vj (fneg (fabs (fsub Binary32 xmax xmin))) \<or> fgt vj (fabs (fsub Binary32 xmax xmin))
      then uniform_omp env (fneg (fabs (fsub Binary32 xmax xmin)))
             (fabs (fsub Binary32 xmax xmin)) seed
      else (vj, seed))"

text \<open>Lines 62 to 65: the two tests on the new position.\<close>

definition clamp :: "cfloat \<Rightarrow> cfloat \<Rightarrow> cfloat \<Rightarrow> cfloat" where
  "clamp xmin xmax xj =
     (let xj = (if fgt xj xmax then xmax else xj)
      in if flt xj xmin then xmin else xj)"

text \<open>
  The body of the loop over the dimensions, for dimension \<open>j\<close> of particle \<open>i\<close>, in
  place in the swarm: \<open>gi\<close> is the index of \<^verbatim>\<open>gbest\<close>, which may be \<open>i\<close> itself or the
  index one past the array.
\<close>

definition step_dim ::
  "platform \<Rightarrow> cfloat \<Rightarrow> cfloat \<Rightarrow> nat \<Rightarrow> nat \<Rightarrow> nat \<Rightarrow> swarm_t \<times> seed_t
     \<Rightarrow> error + (swarm_t \<times> seed_t)" where
  "step_dim env xmin xmax i gi j st =
     (case st of (swarm, seed) \<Rightarrow>
        let particle = swarm ! i;
            (r1, seed1) = draw env seed;
            (r2, seed2) = draw env seed1
        in bindE (rd (p_v particle) j) (\<lambda>vj.
           bindE (rd (p_pbest particle) j) (\<lambda>pbj.
           bindE (rd (p_x particle) j) (\<lambda>xj.
           bindE (if gi < length swarm then rd (p_x (swarm ! gi)) j
                  else Inl UndefinedBehaviour) (\<lambda>gxj.
             let (vj, seed3) =
                    resample env xmin xmax (new_velocity vj pbj xj gxj r1 r2) seed2;
                 xj = clamp xmin xmax (fadd Binary32 xj vj)
             in Inr (swarm[i := particle\<lparr>p_v := (p_v particle)[j := vj],
                                         p_x := (p_x particle)[j := xj]\<rparr>], seed3))))))"

text \<open>The loop over the dimensions of particle \<open>i\<close>.\<close>

fun dims_loop ::
  "platform \<Rightarrow> cfloat \<Rightarrow> cfloat \<Rightarrow> nat \<Rightarrow> nat \<Rightarrow> nat list \<Rightarrow> swarm_t \<times> seed_t
     \<Rightarrow> error + (swarm_t \<times> seed_t)" where
  "dims_loop env xmin xmax i gi [] st = Inr st"
| "dims_loop env xmin xmax i gi (j # js) st =
     bindE (step_dim env xmin xmax i gi j st) (dims_loop env xmin xmax i gi js)"

text \<open>
  Lines 68 to 76: evaluate the fitness (the status is not looked at) and update the
  personal best.
\<close>

definition update_pbest ::
  "platform \<Rightarrow> string \<Rightarrow> cfloat \<Rightarrow> particle_t \<Rightarrow> error + particle_t" where
  "update_pbest env function curr0 particle =
     bindE (pso_eval_fitness env function particle curr0) (\<lambda>(status, curr_fitness).
       if flt curr_fitness (p_fitness particle)
       then bindE (copy_loop (p_x particle) [0..<nat (p_dim particle)] (p_pbest particle))
              (\<lambda>pb. Inr (particle\<lparr>p_fitness := curr_fitness, p_pbest := pb\<rparr>))
       else Inr particle)"

text \<open>
  The body of the particle loop for particle \<open>i\<close>, on the swarm and the private seed
  of the thread. \<^verbatim>\<open>&swarm->particle[particle->g]\<close> with an index before the array or
  beyond its end is undefined behaviour.
\<close>

definition update_particle ::
  "platform \<Rightarrow> string \<Rightarrow> cfloat \<Rightarrow> cfloat \<Rightarrow> cfloat \<Rightarrow> nat \<Rightarrow> swarm_t \<times> seed_t
     \<Rightarrow> error + (swarm_t \<times> seed_t)" where
  "update_particle env function xmin xmax curr0 i st =
     (case st of (swarm, seed) \<Rightarrow>
        let seed1 = seed + of_nat i;
            gidx = p_g (swarm ! i)
        in if gidx < 0 \<or> int (length swarm) < gidx then Inl UndefinedBehaviour
           else
             bindE (dims_loop env xmin xmax i (nat gidx) [0..<nat (p_dim (swarm ! i))]
                      (swarm, seed1)) (\<lambda>(swarm1, seed2).
             bindE (update_pbest env function curr0 (swarm1 ! i)) (\<lambda>particle.
               Inr (swarm1[i := particle], seed2))))"

fun update_thread ::
  "platform \<Rightarrow> string \<Rightarrow> cfloat \<Rightarrow> cfloat \<Rightarrow> cfloat \<Rightarrow> nat list \<Rightarrow> swarm_t \<times> seed_t
     \<Rightarrow> error + (swarm_t \<times> seed_t)" where
  "update_thread env function xmin xmax curr0 [] st = Inr st"
| "update_thread env function xmin xmax curr0 (i # rest) st =
     bindE (update_particle env function xmin xmax curr0 i st)
       (update_thread env function xmin xmax curr0 rest)"

text \<open>
  The parallel particle loop of iteration \<open>it\<close>, one thread after the other. The clause
  \<^verbatim>\<open>private(seed)\<close> gives each thread its own copy of the seed, which starts from what
  the stack holds: the value \<^verbatim>\<open>time(NULL)\<close> of line 31 is not copied into it.
\<close>

fun update_phase ::
  "platform \<Rightarrow> string \<Rightarrow> cfloat \<Rightarrow> cfloat \<Rightarrow> nat \<Rightarrow> nat list list \<Rightarrow> nat list \<Rightarrow> swarm_t
     \<Rightarrow> error + swarm_t" where
  "update_phase env function xmin xmax it parts [] swarm = Inr swarm"
| "update_phase env function xmin xmax it parts (t # ts) swarm =
     bindE (update_thread env function xmin xmax (stack_fitness env (Suc it) t) (parts ! t)
              (swarm, stack_seed env (Suc it) t))
       (\<lambda>(swarm', seed'). update_phase env function xmin xmax it parts ts swarm')"

text \<open>One iteration of the main loop: update, reduce, broadcast.\<close>

definition pso_iteration ::
  "platform \<Rightarrow> string \<Rightarrow> cfloat \<Rightarrow> cfloat \<Rightarrow> int \<Rightarrow> nat \<Rightarrow> swarm_t \<Rightarrow> error + (swarm_t \<times> int)" where
  "pso_iteration env function xmin xmax num_threads it swarm =
     bindE (update_phase env function xmin xmax it
              (schedule env (length swarm) (nat num_threads)) [0..<nat num_threads] swarm)
       (\<lambda>swarm1.
     bindE (pso_get_best_fitness_omp env swarm1 num_threads) (\<lambda>gb.
       Inr (broadcast gb swarm1, gb)))"

text \<open>The loop \<^verbatim>\<open>while (iter < max_iter)\<close> on the swarm and the variable \<open>g\<close>.\<close>

function pso_while ::
  "platform \<Rightarrow> string \<Rightarrow> cfloat \<Rightarrow> cfloat \<Rightarrow> int \<Rightarrow> int \<Rightarrow> int \<Rightarrow> swarm_t \<times> int
     \<Rightarrow> error + (swarm_t \<times> int)" where
  "pso_while env function xmin xmax num_threads iter max_iter st =
     (if iter < max_iter
      then (case pso_iteration env function xmin xmax num_threads (nat iter) (fst st) of
              Inl e \<Rightarrow> Inl e
            | Inr st' \<Rightarrow> pso_while env function xmin xmax num_threads (iter + 1) max_iter st')
      else Inr st)"
  by pat_completeness auto
termination
  by (relation "measure (\<lambda>(env, function, xmin, xmax, num_threads, iter, max_iter, st).
                  nat (max_iter - iter))") auto

declare pso_while.simps [simp del]

text \<open>
  \<^verbatim>\<open>optimize_using_omp\<close>: \<open>Inl\<close> when the run stops in \<^verbatim>\<open>exit\<close> (or in undefined
  behaviour), otherwise the value returned. The variable \<open>g\<close> starts at -1. With
  \<open>g \<ge> 0\<close> the particle at index \<open>g\<close> is printed, which reads beyond the array when \<open>g\<close>
  is not an index of it.
\<close>

definition optimize_using_omp ::
  "platform \<Rightarrow> string \<Rightarrow> int \<Rightarrow> int \<Rightarrow> cfloat \<Rightarrow> cfloat \<Rightarrow> int \<Rightarrow> int \<Rightarrow> error + int" where
  "optimize_using_omp env function ndim swarm_size xmin xmax max_iter num_threads =
     (case pso_init_omp env function ndim swarm_size xmin xmax num_threads of
        Inl (e, live) \<Rightarrow> Inl e
      | Inr swarm \<Rightarrow>
          (case pso_while env function xmin xmax num_threads 0 max_iter (swarm, - 1) of
             Inl e \<Rightarrow> Inl e
           | Inr (swarm', gb) \<Rightarrow>
               if 0 \<le> gb \<and> int (length swarm') \<le> gb then Inl UndefinedBehaviour
               else Inr gb))"

section \<open>The reduction as the specification words it\<close>

text \<open>
  Step 1: each worker finds the minimum fitness of its partition and records the first
  particle that has it. Step 2: the minimum over the local results; the last worker, in
  the order of the worker ids, whose local best equals it gives the result. A worker with
  no particle has no local result.
\<close>

abbreviation fit :: "swarm_t \<Rightarrow> nat \<Rightarrow> cfloat" where
  "fit sw i \<equiv> p_fitness (sw ! i)"

definition is_min_of :: "cfloat \<Rightarrow> cfloat list \<Rightarrow> bool" where
  "is_min_of m fs \<longleftrightarrow> m \<in> set fs \<and> (\<forall>f\<in>set fs. \<not> flt f m)"

definition local_best :: "swarm_t \<Rightarrow> nat list \<Rightarrow> nat option" where
  "local_best swarm part =
     find (\<lambda>i. is_min_of (p_fitness (swarm ! i)) (map (\<lambda>k. p_fitness (swarm ! k)) part)) part"

definition spec_reduce :: "swarm_t \<Rightarrow> nat list list \<Rightarrow> nat option" where
  "spec_reduce swarm parts =
     (let bests = List.map_filter (local_best swarm) parts;
          winners = filter (\<lambda>b. is_min_of (p_fitness (swarm ! b))
                                   (map (\<lambda>k. p_fitness (swarm ! k)) bests)) bests
      in if winners = [] then None else Some (last winners))"

section \<open>A sample platform\<close>

text \<open>
  A concrete platform, to run the definitions on: the static schedule in blocks (the
  first \<open>n mod p\<close> threads get one iteration more), a small generator for \<open>rand_r\<close>,
  a mathematical library that rounds the exact result, and fixed contents for the
  memory the program does not initialise.
\<close>

definition static_schedule :: "nat \<Rightarrow> nat \<Rightarrow> nat list list" where
  "static_schedule n p =
     map (\<lambda>t. [t * (n div p) + min t (n mod p) ..< Suc t * (n div p) + min (Suc t) (n mod p)])
       [0..<p]"

definition demo_rand_r :: "seed_t \<Rightarrow> int \<times> seed_t" where
  "demo_rand_r s = (uint s mod 5, s + 3)"

definition ideal_sin :: "cfloat \<Rightarrow> cfloat" where
  "ideal_sin x = (case x of Fin r \<Rightarrow> rnd Binary64 (sin r) | _ \<Rightarrow> NaN)"

definition ideal_cos :: "cfloat \<Rightarrow> cfloat" where
  "ideal_cos x = (case x of Fin r \<Rightarrow> rnd Binary64 (cos r) | _ \<Rightarrow> NaN)"

definition ideal_sqrt :: "cfloat \<Rightarrow> cfloat" where
  "ideal_sqrt x =
     (case x of Fin r \<Rightarrow> if r < 0 then NaN else rnd Binary64 (sqrt r) | PInf \<Rightarrow> PInf | _ \<Rightarrow> NaN)"

definition ideal_exp :: "cfloat \<Rightarrow> cfloat" where
  "ideal_exp x =
     (case x of Fin r \<Rightarrow> rnd Binary64 (exp r) | PInf \<Rightarrow> PInf | NInf \<Rightarrow> Fin 0 | NaN \<Rightarrow> NaN)"

text \<open>The program calls \<^verbatim>\<open>pow\<close> with the exponent 2 only.\<close>

definition ideal_pow :: "cfloat \<Rightarrow> cfloat \<Rightarrow> cfloat" where
  "ideal_pow x y = (if y = Fin 2 then fmul Binary64 x x else NaN)"

definition blank_particle :: particle_t where
  "blank_particle = \<lparr>p_dim = 0, p_x = [], p_v = [], p_pbest = [], p_fitness = NaN, p_g = 0\<rparr>"

definition demo_platform :: platform where
  "demo_platform =
     \<lparr>rand_r = demo_rand_r, RAND_MAX = 4, time_now = 0,
      c_sin = ideal_sin, c_cos = ideal_cos, c_sqrt = ideal_sqrt, c_exp = ideal_exp,
      c_pow = ideal_pow, schedule = static_schedule, reducer_schedule = static_schedule,
      malloc_ok = (\<lambda>k n. True), sizeof_swarm = 16, sizeof_particle = 40,
      heap_particle = (\<lambda>i. blank_particle),
      stack_g = (\<lambda>t. - 7), stack_seed = (\<lambda>it t. of_nat t),
      stack_fitness = (\<lambda>it t. NaN)\<rparr>"

text \<open>A particle of dimension 2 at a given position, at rest.\<close>

definition particle_at :: "real \<Rightarrow> real \<Rightarrow> cfloat \<Rightarrow> particle_t" where
  "particle_at a b f =
     \<lparr>p_dim = 2, p_x = [Fin a, Fin b], p_v = [Fin 0, Fin 0], p_pbest = [Fin a, Fin b],
      p_fitness = f, p_g = 0\<rparr>"

text \<open>Three swarms with fitness values only: ties within and across partitions.\<close>

definition demo_swarm :: swarm_t where
  "demo_swarm = [particle_at 0 0 (Fin 2), particle_at 1 3 (Fin 1), particle_at 3 1 (Fin 1)]"

definition tie_swarm :: swarm_t where
  "tie_swarm = [particle_at 0 0 (Fin 1), particle_at 0 1 (Fin 1), particle_at 1 0 (Fin 1),
                particle_at 1 1 (Fin 2)]"

definition inf_swarm :: swarm_t where
  "inf_swarm = [particle_at 0 0 PInf]"

text \<open>The sample platform with another content of the uninitialised \<^verbatim>\<open>local_g\<close>.\<close>

definition demo_platform2 :: platform where
  "demo_platform2 = demo_platform\<lparr>stack_g := (\<lambda>t. 5)\<rparr>"

text \<open>
  The swarm that initialisation builds on the sample platform for Booth, dimension 2,
  three particles, bounds -10 and 10, two threads; and the swarm after one iteration.
\<close>

definition run_swarm0 :: swarm_t where
  "run_swarm0 =
     [\<lparr>p_dim = 2, p_x = [Fin (- 10), Fin 5], p_v = [Fin (- 10), Fin 20],
        p_pbest = [Fin (- 10), Fin 5], p_fitness = Fin 449, p_g = 1\<rparr>,
      \<lparr>p_dim = 2, p_x = [Fin 5, Fin (- 5)], p_v = [Fin 20, Fin 0],
        p_pbest = [Fin 5, Fin (- 5)], p_fitness = Fin 144, p_g = 1\<rparr>,
      \<lparr>p_dim = 2, p_x = [Fin 0, Fin (- 10)], p_v = [Fin 10, Fin (- 10)],
        p_pbest = [Fin 0, Fin (- 10)], p_fitness = Fin 954, p_g = 1\<rparr>]"

definition run_swarm1 :: swarm_t where
  "run_swarm1 =
     [\<lparr>p_dim = 2, p_x = [Fin (- (596377 / 524288)), Fin (6186599 / 1048576)],
        p_v = [Fin (4646503 / 524288), Fin (943719 / 1048576)],
        p_pbest = [Fin (- (596377 / 524288)), Fin (6186599 / 1048576)],
        p_fitness = Fin (16047973 / 1048576), p_g = 0\<rparr>,
      \<lparr>p_dim = 2, p_x = [Fin 10, Fin (- 5)], p_v = [Fin (16567501 / 1048576), Fin 0],
        p_pbest = [Fin 5, Fin (- 5)], p_fitness = Fin 144, p_g = 0\<rparr>,
      \<lparr>p_dim = 2, p_x = [Fin 10, Fin (- 10)],
        p_v = [Fin (93 / 8), Fin (- (4377805 / 1048576))],
        p_pbest = [Fin 10, Fin (- 10)], p_fitness = Fin 314, p_g = 0\<rparr>]"

text \<open>
  The sample platform with other contents of the uninitialised private seeds, and the
  swarm one iteration then gives from \<open>run_swarm0\<close>.
\<close>

definition demo_platform3 :: platform where
  "demo_platform3 = demo_platform\<lparr>stack_seed := (\<lambda>it t. of_nat t + 1)\<rparr>"

definition run_swarm1_alt :: swarm_t where
  "run_swarm1_alt =
     [\<lparr>p_dim = 2, p_x = [Fin (1166541 / 262144), Fin 10],
        p_v = [Fin (3787981 / 262144), Fin (16567501 / 1048576)],
        p_pbest = [Fin (- 10), Fin 5], p_fitness = Fin 449, p_g = 1\<rparr>,
      \<lparr>p_dim = 2, p_x = [Fin 10, Fin (- 5)], p_v = [Fin (16567501 / 1048576), Fin 0],
        p_pbest = [Fin 5, Fin (- 5)], p_fitness = Fin 144, p_g = 1\<rparr>,
      \<lparr>p_dim = 2, p_x = [Fin 10, Fin (- 10)],
        p_v = [Fin (8047821 / 524288), Fin (- (4849663 / 2097152))],
        p_pbest = [Fin 10, Fin (- 10)], p_fitness = Fin 314, p_g = 1\<rparr>]"


section \<open>Properties of the float arithmetic\<close>

subsection \<open>The binade of a number\<close>

lemma search_range: "lo \<le> search k a lo \<and> search k a lo < lo + 2 ^ k"
proof (induction k arbitrary: lo)
  case 0
  then show ?case by simp
next
  case (Suc k)
  show ?case using Suc [of lo] Suc [of "lo + 2 ^ k"] by simp
qed

lemma search_lower: "lo < search k a lo \<Longrightarrow> 2 powi (search k a lo) \<le> a"
proof (induction k arbitrary: lo)
  case 0
  then show ?case by simp
next
  case (Suc k)
  show ?case
  proof (cases "2 powi (lo + 2 ^ k) \<le> a")
    case True
    then have eq: "search (Suc k) a lo = search k a (lo + 2 ^ k)" by simp
    show ?thesis
    proof (cases "lo + 2 ^ k < search k a (lo + 2 ^ k)")
      case True
      then show ?thesis using Suc.IH eq by simp
    next
      case False
      then have "search k a (lo + 2 ^ k) = lo + 2 ^ k"
        using search_range [of "lo + 2 ^ k" k a] by simp
      then show ?thesis using True eq by simp
    qed
  next
    case False
    then show ?thesis using Suc by simp
  qed
qed

lemma search_upper: "search k a lo + 1 < lo + 2 ^ k \<Longrightarrow> a < 2 powi (search k a lo + 1)"
proof (induction k arbitrary: lo)
  case 0
  then show ?case by simp
next
  case (Suc k)
  show ?case
  proof (cases "2 powi (lo + 2 ^ k) \<le> a")
    case True
    then show ?thesis using Suc by simp
  next
    case False
    then have eq: "search (Suc k) a lo = search k a lo" by simp
    show ?thesis
    proof (cases "search k a lo + 1 < lo + 2 ^ k")
      case True
      then show ?thesis using Suc.IH eq by simp
    next
      case False
      then have "search k a lo + 1 = lo + 2 ^ k"
        using search_range [of lo k a] by simp
      then show ?thesis using \<open>\<not> 2 powi (lo + 2 ^ k) \<le> a\<close> eq by simp
    qed
  qed
qed

lemma search_mono: "a \<le> b \<Longrightarrow> search k a lo \<le> search k b lo"
proof (induction k arbitrary: lo)
  case 0
  then show ?case by simp
next
  case (Suc k)
  show ?case
  proof (cases "2 powi (lo + 2 ^ k) \<le> a")
    case True
    then have "2 powi (lo + 2 ^ k) \<le> b" using Suc.prems by simp
    then show ?thesis using True Suc by simp
  next
    case False
    show ?thesis
    proof (cases "2 powi (lo + 2 ^ k) \<le> b")
      case True
      have "search k a lo < lo + 2 ^ k" using search_range by blast
      moreover have "lo + 2 ^ k \<le> search k b (lo + 2 ^ k)" using search_range by blast
      ultimately show ?thesis using True False by simp
    next
      case False
      then show ?thesis using \<open>\<not> 2 powi (lo + 2 ^ k) \<le> a\<close> Suc by simp
    qed
  qed
qed

lemma etop: "emin f + 2 ^ ebits f = emax f + 3"
  by (cases f) (simp_all add: emin_def emax_def)

lemma prec_pos: "2 \<le> prec f"
  by (cases f) simp_all

lemma expo_ge: "emin f \<le> expo f a"
  unfolding expo_def using search_range by blast

lemma expo_le: "expo f a \<le> emax f + 2"
  unfolding expo_def using search_range [of "emin f" "ebits f" a] etop [of f] by simp

lemma expo_lower: "emin f < expo f a \<Longrightarrow> 2 powi (expo f a) \<le> a"
  unfolding expo_def by (rule search_lower)

lemma expo_upper: "expo f a < emax f + 2 \<Longrightarrow> a < 2 powi (expo f a + 1)"
  unfolding expo_def using search_upper [of "ebits f" a "emin f"] etop [of f] by simp

lemma expo_mono: "a \<le> b \<Longrightarrow> expo f a \<le> expo f b"
  unfolding expo_def by (rule search_mono)

lemma rne_of_int [simp]: "rne (of_int m) = m"
  by (simp add: rne_def)

lemma rne_mono: "q \<le> q' \<Longrightarrow> rne q \<le> rne q'"
proof -
  assume le: "q \<le> q'"
  have a: "\<lfloor>q\<rfloor> \<le> rne q" "rne q \<le> \<lfloor>q\<rfloor> + 1" for q by (simp_all add: rne_def Let_def)
  have fl: "\<lfloor>q\<rfloor> \<le> \<lfloor>q'\<rfloor>" using le by (rule floor_mono)
  show ?thesis
  proof (cases "\<lfloor>q\<rfloor> = \<lfloor>q'\<rfloor>")
    case True
    then show ?thesis using le by (auto simp: rne_def Let_def)
  next
    case False
    then have "\<lfloor>q\<rfloor> + 1 \<le> \<lfloor>q'\<rfloor>" using fl by simp
    then show ?thesis using a(2) [of q] a(1) [of q'] by linarith
  qed
qed

lemma rne_neg: "rne (- q) = - rne q"
proof (cases "q = of_int \<lfloor>q\<rfloor>")
  case True
  then obtain m where "q = of_int m" by metis
  then show ?thesis by (simp add: rne_of_int [of "- m", simplified])
next
  case False
  have c: "\<lceil>q\<rceil> = \<lfloor>q\<rfloor> + 1" by (simp only: ceiling_altdef False if_False)
  have f: "\<lfloor>- q\<rfloor> = - \<lfloor>q\<rfloor> - 1" using c by (simp add: ceiling_def)
  have lt: "of_int \<lfloor>q\<rfloor> < q" using False of_int_floor_le [of q] by argo
  have ni: "q \<noteq> of_int n" for n using False by (metis floor_of_int)
  show ?thesis unfolding rne_def Let_def f using lt ni by (auto simp: field_simps)
qed


lemma p2_pos [simp]: "0 < (2::real) powi e"
  by (simp add: zero_less_power_int)

lemma p2_add: "(2::real) powi (a + b) = 2 powi a * 2 powi b"
  by (simp add: power_int_add)

lemma p2_mono: "a \<le> b \<Longrightarrow> (2::real) powi a \<le> 2 powi b"
  by (simp add: power_int_increasing)

lemma p2_nat: "0 \<le> e \<Longrightarrow> (2::real) powi e = of_int (2 ^ nat e)"
  by (simp add: power_int_def)

lemma round_at_mono: "x \<le> y \<Longrightarrow> round_at e x \<le> round_at e y"
proof -
  assume "x \<le> y"
  then have "x / 2 powi e \<le> y / 2 powi e" by (simp add: divide_right_mono)
  then have "rne (x / 2 powi e) \<le> rne (y / 2 powi e)" by (rule rne_mono)
  then show ?thesis unfolding round_at_def by (simp add: mult_right_mono)
qed

lemma round_at_neg: "round_at e (- x) = - round_at e x"
  by (simp add: round_at_def rne_neg)

lemma round_at_exact:
  assumes "x = of_int m * 2 powi e'" and "e \<le> e'"
  shows "round_at e x = x"
proof -
  have "2 powi e' = 2 powi (e' - e) * (2::real) powi e" by (simp add: p2_add [symmetric])
  then have "x / 2 powi e = of_int m * 2 powi (e' - e)" using assms(1) by simp
  also have "\<dots> = of_int (m * 2 ^ nat (e' - e))" using assms(2) by (simp add: p2_nat)
  finally have q: "x / 2 powi e = of_int (m * 2 ^ nat (e' - e))" .
  have "round_at e x = of_int (m * 2 ^ nat (e' - e)) * 2 powi e"
    unfolding round_at_def q by (simp only: rne_of_int)
  also have "\<dots> = x / 2 powi e * 2 powi e" by (simp only: q)
  finally show ?thesis by simp
qed

lemma round_at_le: "x \<le> of_int K * 2 powi e \<Longrightarrow> round_at e x \<le> of_int K * 2 powi e"
  using round_at_mono [of x "of_int K * 2 powi e" e] round_at_exact [of "of_int K * 2 powi e" K e e]
  by simp

lemma round_at_ge: "of_int K * 2 powi e \<le> x \<Longrightarrow> of_int K * 2 powi e \<le> round_at e x"
  using round_at_mono [of "of_int K * 2 powi e" x e] round_at_exact [of "of_int K * 2 powi e" K e e]
  by simp


lemma ru_neg: "ru f (- x) = - ru f x"
  by (simp add: ru_def ulp_exp_def round_at_neg)

lemma ru_nonneg: "0 \<le> x \<Longrightarrow> 0 \<le> ru f x"
  using round_at_ge [of 0 "ulp_exp f x" x] by (simp add: ru_def)

text \<open>Within the binade of exponent \<open>E\<close> the rounded value stays between its ends.\<close>

lemma ru_binade_le:
  assumes "0 \<le> x" and "expo f x < emax f + 2"
  shows "ru f x \<le> 2 powi (expo f x + 1)"
proof -
  define E where "E = expo f x"
  define p where "p = prec f"
  have p: "0 \<le> p" using prec_pos [of f] by (simp add: p_def)
  have "x < 2 powi (E + 1)" using expo_upper [OF assms(2)] by (simp add: E_def)
  also have "(2::real) powi (E + 1) = 2 powi p * 2 powi (E - (p - 1))"
    by (simp add: p2_add [symmetric])
  also have "\<dots> = of_int (2 ^ nat p) * 2 powi (E - (p - 1))" using p by (simp add: p2_nat)
  finally have "x \<le> of_int (2 ^ nat p) * 2 powi (E - (p - 1))" by simp
  then have "round_at (E - (p - 1)) x \<le> of_int (2 ^ nat p) * 2 powi (E - (p - 1))"
    by (rule round_at_le)
  also have "\<dots> = 2 powi p * 2 powi (E - (p - 1))" using p by (simp add: p2_nat)
  also have "\<dots> = 2 powi (E + 1)" by (simp add: p2_add [symmetric])
  finally show ?thesis using assms(1) by (simp add: ru_def ulp_exp_def E_def p_def)
qed

lemma ru_binade_ge:
  assumes "0 \<le> x" and "emin f < expo f x"
  shows "2 powi (expo f x) \<le> ru f x"
proof -
  define E where "E = expo f x"
  define p where "p = prec f"
  have p: "0 \<le> p - 1" using prec_pos [of f] by (simp add: p_def)
  have "(2::real) powi E = 2 powi (p - 1) * 2 powi (E - (p - 1))"
    by (simp add: p2_add [symmetric])
  also have "\<dots> = of_int (2 ^ nat (p - 1)) * 2 powi (E - (p - 1))" using p by (simp add: p2_nat)
  finally have eq: "(2::real) powi E = of_int (2 ^ nat (p - 1)) * 2 powi (E - (p - 1))" .
  have "2 powi E \<le> x" using expo_lower [OF assms(2)] by (simp add: E_def)
  then have "of_int (2 ^ nat (p - 1)) * 2 powi (E - (p - 1)) \<le> x" by (simp only: eq)
  then have "of_int (2 ^ nat (p - 1)) * 2 powi (E - (p - 1)) \<le> round_at (E - (p - 1)) x"
    by (rule round_at_ge)
  then have "2 powi E \<le> round_at (E - (p - 1)) x" by (simp only: eq)
  then show ?thesis using assms(1) by (simp add: ru_def ulp_exp_def E_def p_def)
qed

lemma ru_mono_pos:
  assumes "0 \<le> x" and "x \<le> y"
  shows "ru f x \<le> ru f y"
proof -
  have y: "0 \<le> y" using assms by simp
  have le: "expo f x \<le> expo f y" using assms(2) by (rule expo_mono)
  show ?thesis
  proof (cases "expo f x = expo f y")
    case True
    then show ?thesis using assms y round_at_mono [OF assms(2)]
      by (simp add: ru_def ulp_exp_def)
  next
    case False
    then have lt: "expo f x < expo f y" using le by simp
    have "expo f x < emax f + 2" using lt expo_le [of f y] by simp
    then have "ru f x \<le> 2 powi (expo f x + 1)" by (rule ru_binade_le [OF assms(1)])
    also have "\<dots> \<le> 2 powi (expo f y)" using lt by (intro p2_mono) simp
    also have "\<dots> \<le> ru f y"
      using lt expo_ge [of f x] by (intro ru_binade_ge [OF y]) simp
    finally show ?thesis .
  qed
qed

lemma ru_mono: "x \<le> y \<Longrightarrow> ru f x \<le> ru f y"
proof -
  assume le: "x \<le> y"
  consider "0 \<le> x" | "x < 0" "0 \<le> y" | "y < 0" using le by linarith
  then show ?thesis
  proof cases
    case 1
    then show ?thesis using le by (rule ru_mono_pos)
  next
    case 2
    have "0 \<le> ru f (- x)" using 2 by (intro ru_nonneg) simp
    then have "ru f x \<le> 0" by (simp add: ru_neg)
    also have "0 \<le> ru f y" using 2 by (intro ru_nonneg)
    finally show ?thesis .
  next
    case 3
    have "ru f (- y) \<le> ru f (- x)" using 3 le by (intro ru_mono_pos) simp_all
    then show ?thesis by (simp add: ru_neg)
  qed
qed

lemma rnd_ru: "rnd f x = classify f (ru f x)"
  by (rule rnd_def)

lemma classify_mono: "a \<le> b \<Longrightarrow> fle (classify f a) (classify f b)"
proof -
  assume "a \<le> b"
  moreover have "0 < (2::real) powi (emax f + 1)" by simp
  ultimately show ?thesis unfolding classify_def by auto
qed

lemma rnd_mono: "x \<le> y \<Longrightarrow> fle (rnd f x) (rnd f y)"
  unfolding rnd_ru by (intro classify_mono ru_mono)

lemma rnd_not_NaN [simp]: "rnd f x \<noteq> NaN"
  by (simp add: rnd_def classify_def)


lemma classify_neg: "classify f (- r) = fneg (classify f r)"
proof -
  define P where "P = (2::real) powi (emax f + 1)"
  have "0 < P" by (simp add: P_def)
  then show ?thesis unfolding classify_def P_def [symmetric] by auto
qed

lemma rnd_neg: "rnd f (- x) = fneg (rnd f x)"
  by (simp add: rnd_ru ru_neg classify_neg)

lemma classify_Fin: "classify f r = Fin r' \<longleftrightarrow> r' = r \<and> \<bar>r\<bar> < 2 powi (emax f + 1)"
  unfolding classify_def by auto

lemma ru_abs: "ru f \<bar>x\<bar> = \<bar>ru f x\<bar>"
proof (cases "0 \<le> x")
  case True
  then show ?thesis using ru_nonneg [of x f] by simp
next
  case False
  then have "0 \<le> ru f (- x)" by (intro ru_nonneg) simp
  then show ?thesis using False by (simp add: ru_neg)
qed

lemma repI:
  assumes x: "x = of_int m * 2 powi e"
      and m: "\<bar>m\<bar> < 2 ^ nat (prec f)"
      and e: "emin f - (prec f - 1) \<le> e"
      and b: "\<bar>x\<bar> < 2 powi (emax f + 1)"
  shows "rnd f x = Fin x"
proof -
  define E where "E = expo f \<bar>x\<bar>"
  define p where "p = prec f"
  have p: "0 \<le> p" using prec_pos [of f] by (simp add: p_def)
  have "E - (p - 1) \<le> e"
  proof (rule ccontr)
    assume "\<not> E - (p - 1) \<le> e"
    then have lt: "e + p \<le> E" by simp
    then have "emin f < E" using e p prec_pos [of f] by (simp add: p_def)
    then have "2 powi E \<le> \<bar>x\<bar>" unfolding E_def by (rule expo_lower)
    also have "\<bar>x\<bar> = of_int \<bar>m\<bar> * 2 powi e" by (simp add: x abs_mult)
    also have "\<dots> < of_int (2 ^ nat p) * 2 powi e"
    proof -
      have "(of_int \<bar>m\<bar> :: real) < of_int (2 ^ nat p)"
        using m by (simp only: of_int_less_iff p_def)
      then show ?thesis by (rule mult_strict_right_mono) simp
    qed
    also have "\<dots> = 2 powi p * 2 powi e" using p by (simp add: p2_nat)
    also have "\<dots> = 2 powi (e + p)" by (simp add: p2_add [symmetric] add.commute)
    also have "\<dots> \<le> 2 powi E" using lt by (rule p2_mono)
    finally show False by simp
  qed
  then have "round_at (E - (p - 1)) x = x" by (rule round_at_exact [OF x])
  then have "ru f x = x" by (simp add: ru_def ulp_exp_def E_def p_def)
  then show ?thesis using b by (simp add: rnd_ru classify_Fin)
qed

lemma repD:
  assumes "rnd f y = Fin r"
  shows "\<exists>m e. r = of_int m * 2 powi e \<and> \<bar>m\<bar> < 2 ^ nat (prec f) \<and>
           emin f - (prec f - 1) \<le> e \<and> \<bar>r\<bar> < 2 powi (emax f + 1)"
proof -
  define E where "E = expo f \<bar>y\<bar>"
  define p where "p = prec f"
  define u where "u = (2::real) powi (E - (p - 1))"
  define m where "m = rne (y / u)"
  have p: "1 \<le> p" using prec_pos [of f] by (simp add: p_def)
  have u: "0 < u" by (simp add: u_def)
  have r: "r = ru f y" and b: "\<bar>r\<bar> < 2 powi (emax f + 1)"
    using assms by (simp_all add: rnd_ru classify_Fin)
  have rm: "r = of_int m * u"
    by (simp add: r ru_def ulp_exp_def round_at_def m_def u_def E_def p_def)
  have top: "E < emax f + 2"
  proof (rule ccontr)
    assume "\<not> E < emax f + 2"
    then have E: "emax f + 2 \<le> E" by simp
    have "emin f < E" using E by (cases f) (simp_all add: emin_def emax_def)
    then have "2 powi E \<le> ru f \<bar>y\<bar>" unfolding E_def using ru_binade_ge [of "\<bar>y\<bar>" f] by simp
    moreover have "(2::real) powi (emax f + 1) \<le> 2 powi E" using E by (intro p2_mono) simp
    ultimately show False using b by (simp add: ru_abs r)
  qed
  have "\<bar>r\<bar> \<le> 2 powi (E + 1)"
    using ru_binade_le [of "\<bar>y\<bar>" f] top by (simp add: ru_abs r E_def)
  also have "(2::real) powi (E + 1) = 2 powi p * u" by (simp add: u_def p2_add [symmetric])
  also have "\<dots> = of_int (2 ^ nat p) * u" using p by (simp add: p2_nat)
  finally have "of_int \<bar>m\<bar> * u \<le> of_int (2 ^ nat p) * u" using u by (simp add: rm abs_mult)
  then have "(of_int \<bar>m\<bar> :: real) \<le> of_int (2 ^ nat p)" using u by simp
  then have mle: "\<bar>m\<bar> \<le> 2 ^ nat p" by (simp only: of_int_le_iff)
  have elo: "emin f - (prec f - 1) \<le> E - (p - 1)" using expo_ge [of f "\<bar>y\<bar>"] by (simp add: E_def p_def)
  show ?thesis
  proof (cases "\<bar>m\<bar> < 2 ^ nat p")
    case True
    then show ?thesis using rm elo b unfolding u_def p_def by blast
  next
    case False
    then have meq: "\<bar>m\<bar> = 2 ^ nat p" using mle by simp
    define m' where "m' = (if 0 \<le> m then (2::int) ^ nat (p - 1) else - (2 ^ nat (p - 1)))"
    have two: "(2::int) ^ nat p = 2 * 2 ^ nat (p - 1)"
      using p by (metis Suc_nat_eq_nat_zadd1 add.commute diff_add_cancel diff_ge_0_iff_ge power_Suc)
    have "m = 2 * m'" using meq two by (auto simp: m'_def)
    then have "r = of_int m' * (2 * u)" by (simp add: rm)
    also have "2 * u = 2 powi (E - (p - 1) + 1)"
      by (simp only: u_def p2_add [of "E - (p - 1)" 1] power_int_1_right mult.commute)
    finally have 1: "r = of_int m' * 2 powi (E - (p - 1) + 1)" .
    have "(2::int) ^ nat (p - 1) < 2 ^ nat p" using p by (intro power_strict_increasing) simp_all
    then have 2: "\<bar>m'\<bar> < 2 ^ nat (prec f)" by (simp add: m'_def p_def)
    have 3: "emin f - (prec f - 1) \<le> E - (p - 1) + 1" using elo by simp
    show ?thesis using 1 2 3 b by blast
  qed
qed

lemma rnd_idem: "rnd f y = Fin r \<Longrightarrow> rnd f r = Fin r"
  using repD [of f y r] repI [of r _ _ f] by blast

lemma rep_double:
  assumes "rnd f x = Fin x" and "\<bar>2 * x\<bar> < 2 powi (emax f + 1)"
  shows "rnd f (2 * x) = Fin (2 * x)"
proof -
  obtain m e where me: "x = of_int m * 2 powi e" "\<bar>m\<bar> < 2 ^ nat (prec f)"
      "emin f - (prec f - 1) \<le> e"
    using repD [OF assms(1)] by blast
  have "2 * x = of_int m * 2 powi (e + 1)" by (simp add: me(1) p2_add)
  then show ?thesis using me(2,3) assms(2) by (intro repI [of _ m "e + 1"]) simp_all
qed

lemma rep_pow2:
  assumes "0 \<le> k" and "k \<le> emax f"
  shows "rnd f (2 powi k) = Fin (2 powi k)"
proof -
  have "emin f - (prec f - 1) \<le> 0" by (cases f) (simp_all add: emin_def emax_def)
  then have e: "emin f - (prec f - 1) \<le> k" using assms(1) by simp
  have "(1::int) < 2 ^ nat (prec f)" by (cases f) simp_all
  then have m: "\<bar>1::int\<bar> < 2 ^ nat (prec f)" by simp
  have "(2::real) powi k < 2 powi (emax f + 1)" using assms(2) by (intro power_int_strict_increasing) simp_all
  then show ?thesis using repI [of "2 powi k" 1 k f] m e by simp
qed

lemma rnd_0 [simp]: "rnd f 0 = Fin 0"
  using repI [of 0 0 0 f] by (cases f) (simp_all add: emin_def emax_def)

lemma rnd_1 [simp]: "rnd f 1 = Fin 1"
  using rep_pow2 [of 0 f] by (cases f) (simp_all add: emax_def)


subsection \<open>Bounds through rounding\<close>

lemma fsub_Fin [simp]: "fsub f (Fin a) (Fin b) = rnd f (a - b)"
  by (simp add: fsub_def)

lemma frange_iff: "frange lo hi a \<longleftrightarrow> (\<exists>r. a = Fin r \<and> lo \<le> r \<and> r \<le> hi)"
  by (cases a) (auto simp: frange_def)

lemma frange_Fin [simp]: "frange lo hi (Fin r) \<longleftrightarrow> lo \<le> r \<and> r \<le> hi"
  by (simp add: frange_def)

lemma frange_mono: "frange lo hi a \<Longrightarrow> lo' \<le> lo \<Longrightarrow> hi \<le> hi' \<Longrightarrow> frange lo' hi' a"
  by (auto simp: frange_iff)

lemma rnd_range:
  assumes "lo \<le> x" and "x \<le> hi" and "rnd f lo = Fin lo" and "rnd f hi = Fin hi"
  shows "frange lo hi (rnd f x)"
  using rnd_mono [OF assms(1), of f] rnd_mono [OF assms(2), of f]
  by (simp add: frange_def assms(3,4))

lemma is_float_rnd: "rnd Binary32 x = Fin r \<Longrightarrow> is_float r"
  unfolding is_float_def by (rule rnd_idem)

lemma is_float_neg: "is_float x \<Longrightarrow> is_float (- x)"
  by (simp add: is_float_def rnd_neg)

lemma is_float_abs: "is_float x \<Longrightarrow> is_float \<bar>x\<bar>"
  by (cases "0 \<le> x") (simp_all add: is_float_neg abs_if)

lemma is_float_0 [simp]: "is_float 0"
  by (simp add: is_float_def)

lemma is_float_1 [simp]: "is_float 1"
  by (simp add: is_float_def)

lemma is_float_pow2: "k \<le> 127 \<Longrightarrow> is_float (2 ^ k)"
  using rep_pow2 [of "int k" Binary32] by (simp add: is_float_def emax_def)

lemma is_float_double:
  assumes "is_float x" and "\<bar>x\<bar> < 2 ^ 127"
  shows "is_float (2 * x)"
proof -
  have "\<bar>2 * x\<bar> < 2 powi (emax Binary32 + 1)" using assms(2) by (simp add: emax_def)
  then show ?thesis using assms(1) unfolding is_float_def by (rule rep_double [rotated])
qed

lemma rnd_bnd:
  assumes "\<bar>x\<bar> \<le> 2 ^ k" and "k \<le> 127"
  shows "frange (- (2 ^ k)) (2 ^ k) (rnd Binary32 x)"
proof -
  have p: "rnd Binary32 (2 ^ k) = Fin (2 ^ k)"
    using is_float_pow2 [OF assms(2)] by (simp add: is_float_def)
  have n: "rnd Binary32 (- (2 ^ k)) = Fin (- (2 ^ k))"
    using is_float_neg [OF is_float_pow2 [OF assms(2)]] by (simp add: is_float_def)
  show ?thesis using assms(1) by (intro rnd_range p n) simp_all
qed

subsection \<open>Random numbers\<close>

lemma float_of_int_range:
  assumes "0 \<le> i" and "i < 2 ^ 31"
  shows "\<exists>r. float_of_int i = Fin r \<and> 0 \<le> r \<and> r \<le> 2 ^ 31"
proof -
  have "frange 0 (2 ^ 31) (rnd Binary32 (of_int i))"
  proof (rule rnd_range)
    show "0 \<le> real_of_int i" using assms(1) by simp
    have "real_of_int i \<le> real_of_int (2 ^ 31)" using assms(2) by (simp only: of_int_le_iff)
    then show "real_of_int i \<le> 2 ^ 31" by simp
    show "rnd Binary32 0 = Fin 0" by simp
    show "rnd Binary32 (2 ^ 31) = Fin (2 ^ 31)"
      using is_float_pow2 [of 31] by (simp add: is_float_def)
  qed
  then show ?thesis by (simp add: frange_iff float_of_int_def)
qed

lemma float_of_int_mono:
  assumes "float_of_int i = Fin a" and "float_of_int k = Fin b" and "i \<le> k"
  shows "a \<le> b"
proof -
  have "real_of_int i \<le> real_of_int k" using assms(3) by simp
  then have "fle (rnd Binary32 (of_int i)) (rnd Binary32 (of_int k))" by (rule rnd_mono)
  then show ?thesis using assms(1,2) by (simp add: float_of_int_def)
qed

lemma float_of_int_one: "float_of_int 1 = Fin 1"
  by (simp add: float_of_int_def)

lemma draw_range:
  assumes "rand_ok env"
  shows "frange 0 1 (fst (draw env s))"
proof -
  define r where "r = fst (rand_r env s)"
  have r: "0 \<le> r" "r \<le> RAND_MAX env" and m: "0 < RAND_MAX env" "RAND_MAX env < 2 ^ 31"
    using assms unfolding rand_ok_def r_def by blast+
  obtain a where a: "float_of_int r = Fin a" "0 \<le> a"
    using float_of_int_range [of r] r m by auto
  obtain b where b: "float_of_int (RAND_MAX env) = Fin b"
    using float_of_int_range [of "RAND_MAX env"] m by auto
  have ab: "a \<le> b" using float_of_int_mono [OF a(1) b r(2)] .
  have "1 \<le> b" using float_of_int_mono [OF float_of_int_one b] m by simp
  then have b0: "0 < b" by simp
  have "frange 0 1 (rnd Binary32 (a / b))"
    using a(2) ab b0 by (intro rnd_range) simp_all
  then have "frange 0 1 (fdiv Binary32 (float_of_int r) (float_of_int (RAND_MAX env)))"
    using b0 by (simp add: a b)
  then show ?thesis by (simp add: draw_def split_def Let_def r_def)
qed

lemma uniform_omp_draw:
  "uniform_omp env mn mx s =
     (fadd Binary32 mn (fmul Binary32 (fst (draw env s)) (fsub Binary32 mx mn)), snd (draw env s))"
  by (simp add: uniform_omp_def draw_def split_def Let_def)

lemma scale_range:
  assumes n: "frange 0 1 n" and mn: "is_float mn" and le: "mn \<le> mx"
      and d: "is_finite (fsub Binary32 (Fin mx) (Fin mn))"
  shows "fle (Fin mn) (fadd Binary32 (Fin mn) (fmul Binary32 n (fsub Binary32 (Fin mx) (Fin mn)))) \<and>
         fle (fadd Binary32 (Fin mn) (fmul Binary32 n (fsub Binary32 (Fin mx) (Fin mn))))
             (fadd Binary32 (Fin mn) (fsub Binary32 (Fin mx) (Fin mn)))"
proof -
  obtain nv where nv: "n = Fin nv" "0 \<le> nv" "nv \<le> 1" using n by (auto simp: frange_iff)
  obtain dv where dv: "rnd Binary32 (mx - mn) = Fin dv"
    using d by (cases "rnd Binary32 (mx - mn)") simp_all
  have "fle (rnd Binary32 0) (rnd Binary32 (mx - mn))" using le by (intro rnd_mono) simp
  then have d0: "0 \<le> dv" by (simp add: dv)
  have df: "rnd Binary32 dv = Fin dv" using dv by (rule rnd_idem)
  have "nv * dv \<le> 1 * dv" using nv(3) d0 by (intro mult_right_mono)
  then have "frange 0 dv (rnd Binary32 (nv * dv))"
    using nv(2) d0 df by (intro rnd_range) simp_all
  then obtain t where t: "rnd Binary32 (nv * dv) = Fin t" "0 \<le> t" "t \<le> dv"
    by (auto simp: frange_iff)
  have 1: "fle (rnd Binary32 mn) (rnd Binary32 (mn + t))" using t(2) by (intro rnd_mono) simp
  have 2: "fle (rnd Binary32 (mn + t)) (rnd Binary32 (mn + dv))" using t(3) by (intro rnd_mono) simp
  show ?thesis using 1 2 mn by (simp add: nv(1) dv t(1) is_float_def)
qed

text \<open>On a range \<open>[-b, b]\<close> whose width is finite the two ends are met exactly.\<close>

lemma symmetric_range:
  assumes "is_float b" and "0 \<le> b" and "b < 2 ^ 127"
  shows "fsub Binary32 (Fin b) (Fin (- b)) = Fin (2 * b)"
    and "fadd Binary32 (Fin (- b)) (fsub Binary32 (Fin b) (Fin (- b))) = Fin b"
proof -
  have "is_float (2 * b)" using assms by (intro is_float_double) simp_all
  then have r2: "rnd Binary32 (2 * b) = Fin (2 * b)" by (simp add: is_float_def)
  then show "fsub Binary32 (Fin b) (Fin (- b)) = Fin (2 * b)" by simp
  show "fadd Binary32 (Fin (- b)) (fsub Binary32 (Fin b) (Fin (- b))) = Fin b"
    using assms(1) by (simp add: r2 is_float_def)
qed

lemma uniform_omp_symmetric:
  assumes "rand_ok env" and "is_float b" and "0 \<le> b" and "b < 2 ^ 127"
  shows "frange (- b) b (fst (uniform_omp env (Fin (- b)) (Fin b) s))"
proof -
  have fin: "is_finite (fsub Binary32 (Fin b) (Fin (- b)))"
    by (simp only: symmetric_range(1) [OF assms(2,3,4)] is_finite.simps)
  have le: "- b \<le> b" using assms(3) by simp
  note sr = scale_range [OF draw_range [OF assms(1), of s] is_float_neg [OF assms(2)] le fin]
  show ?thesis
    using sr unfolding symmetric_range(2) [OF assms(2,3,4)]
    by (simp add: frange_def uniform_omp_draw)
qed

subsection \<open>The comparisons of C on floats\<close>

lemma flt_irrefl [simp]: "\<not> flt a a"
  by (cases a) auto

lemma flt_trans: "flt a b \<Longrightarrow> flt b c \<Longrightarrow> flt a c"
  by (cases a; cases b; cases c) auto

lemma flt_not_trans: "flt a b \<Longrightarrow> \<not> flt c b \<Longrightarrow> c \<noteq> NaN \<Longrightarrow> flt a c"
  by (cases a; cases b; cases c) auto

lemma not_flt_trans: "\<not> flt b a \<Longrightarrow> flt b c \<Longrightarrow> a \<noteq> NaN \<Longrightarrow> flt a c"
  by (cases a; cases b; cases c) auto

lemma not_flt_not_trans: "\<not> flt b a \<Longrightarrow> \<not> flt c b \<Longrightarrow> b \<noteq> NaN \<Longrightarrow> \<not> flt c a"
  by (cases a; cases b; cases c) auto

lemma flt_antisym: "\<not> flt a b \<Longrightarrow> \<not> flt b a \<Longrightarrow> a \<noteq> NaN \<Longrightarrow> b \<noteq> NaN \<Longrightarrow> a = b"
  by (cases a; cases b) auto

lemma feq_eq: "a \<noteq> NaN \<Longrightarrow> feq a b \<longleftrightarrow> a = b"
  by (cases a; cases b) auto

lemma is_finite_iff: "is_finite a \<longleftrightarrow> (\<exists>r. a = Fin r)"
  by (cases a) auto

lemma flt_Fin_PInf [simp]: "is_finite a \<Longrightarrow> flt a PInf"
  by (cases a) auto

subsection \<open>The reducer\<close>

lemma local_scan_cases:
  assumes "\<forall>i\<in>set part. fit sw i \<noteq> NaN"
  shows "(local_scan sw part (lf, lg) = (lf, lg) \<and> (\<forall>i\<in>set part. \<not> flt (fit sw i) lf)) \<or>
         (\<exists>pre k post. part = pre @ k # post \<and> local_scan sw part (lf, lg) = (fit sw k, int k) \<and>
            flt (fit sw k) lf \<and> (\<forall>i\<in>set pre. flt (fit sw k) (fit sw i)) \<and>
            (\<forall>i\<in>set post. \<not> flt (fit sw i) (fit sw k)))"
  using assms
proof (induction part arbitrary: lf lg)
  case Nil
  then show ?case by simp
next
  case (Cons i rest)
  have nn: "\<forall>i\<in>set rest. fit sw i \<noteq> NaN" and ni: "fit sw i \<noteq> NaN" using Cons.prems by auto
  show ?case
  proof (cases "flt (fit sw i) lf")
    case True
    from Cons.IH [OF nn, of "fit sw i" "int i"]
    show ?thesis
    proof
      assume a: "local_scan sw rest (fit sw i, int i) = (fit sw i, int i) \<and> (\<forall>k\<in>set rest. \<not> flt (fit sw k) (fit sw i))"
      have "i # rest = [] @ i # rest \<and> local_scan sw (i # rest) (lf, lg) = (fit sw i, int i) \<and>
            flt (fit sw i) lf \<and> (\<forall>k\<in>set []. flt (fit sw i) (fit sw k)) \<and>
            (\<forall>k\<in>set rest. \<not> flt (fit sw k) (fit sw i))"
        using a True by simp
      then show ?thesis by blast
    next
      assume "\<exists>pre k post. rest = pre @ k # post \<and> local_scan sw rest (fit sw i, int i) = (fit sw k, int k) \<and>
            flt (fit sw k) (fit sw i) \<and> (\<forall>i\<in>set pre. flt (fit sw k) (fit sw i)) \<and>
            (\<forall>i\<in>set post. \<not> flt (fit sw i) (fit sw k))"
      then obtain pre k post where b: "rest = pre @ k # post" 
          "local_scan sw rest (fit sw i, int i) = (fit sw k, int k)"
          "flt (fit sw k) (fit sw i)" "\<forall>i\<in>set pre. flt (fit sw k) (fit sw i)"
          "\<forall>i\<in>set post. \<not> flt (fit sw i) (fit sw k)" by blast
      have "i # rest = (i # pre) @ k # post \<and> local_scan sw (i # rest) (lf, lg) = (fit sw k, int k) \<and>
            flt (fit sw k) lf \<and> (\<forall>j\<in>set (i # pre). flt (fit sw k) (fit sw j)) \<and>
            (\<forall>j\<in>set post. \<not> flt (fit sw j) (fit sw k))"
        using b True flt_trans [OF b(3) True] by simp
      then show ?thesis by blast
    qed
  next
    case False
    from Cons.IH [OF nn, of lf lg]
    show ?thesis
    proof
      assume a: "local_scan sw rest (lf, lg) = (lf, lg) \<and> (\<forall>k\<in>set rest. \<not> flt (fit sw k) lf)"
      then show ?thesis using False by simp
    next
      assume "\<exists>pre k post. rest = pre @ k # post \<and> local_scan sw rest (lf, lg) = (fit sw k, int k) \<and>
            flt (fit sw k) lf \<and> (\<forall>i\<in>set pre. flt (fit sw k) (fit sw i)) \<and>
            (\<forall>i\<in>set post. \<not> flt (fit sw i) (fit sw k))"
      then obtain pre k post where b: "rest = pre @ k # post" 
          "local_scan sw rest (lf, lg) = (fit sw k, int k)"
          "flt (fit sw k) lf" "\<forall>i\<in>set pre. flt (fit sw k) (fit sw i)"
          "\<forall>i\<in>set post. \<not> flt (fit sw i) (fit sw k)" by blast
      have "flt (fit sw k) (fit sw i)" using flt_not_trans [OF b(3) False ni] .
      then have "i # rest = (i # pre) @ k # post \<and> local_scan sw (i # rest) (lf, lg) = (fit sw k, int k) \<and>
            flt (fit sw k) lf \<and> (\<forall>j\<in>set (i # pre). flt (fit sw k) (fit sw j)) \<and>
            (\<forall>j\<in>set post. \<not> flt (fit sw j) (fit sw k))"
        using b False by simp
      then show ?thesis by blast
    qed
  qed
qed


lemma find_first: "\<forall>i\<in>set pre. \<not> P i \<Longrightarrow> P k \<Longrightarrow> find P (pre @ k # post) = Some k"
  by (induction pre) auto

lemma local_best_decomp:
  assumes "\<forall>i\<in>set pre. flt (fit sw k) (fit sw i)" "\<forall>i\<in>set post. \<not> flt (fit sw i) (fit sw k)"
  shows "local_best sw (pre @ k # post) = Some k"
proof -
  let ?P = "\<lambda>i. is_min_of (fit sw i) (map (fit sw) (pre @ k # post))"
  have asym: "flt a b \<Longrightarrow> \<not> flt b a" for a b using flt_trans [of a b a] by auto
  have "?P k" using assms asym by (auto simp: is_min_of_def)
  moreover have "\<forall>i\<in>set pre. \<not> ?P i" using assms(1) by (auto simp: is_min_of_def)
  ultimately show ?thesis unfolding local_best_def by (rule find_first [rotated])
qed

lemma local_best_Some:
  "local_best sw part = Some k \<Longrightarrow> k \<in> set part \<and> (\<forall>i\<in>set part. \<not> flt (fit sw i) (fit sw k))"
  by (auto simp: local_best_def find_Some_iff is_min_of_def)

lemma local_scan_best:
  assumes "\<forall>i\<in>set part. is_finite (fit sw i)"
  shows "local_scan sw part (PInf, j) =
           (case local_best sw part of None \<Rightarrow> (PInf, j) | Some k \<Rightarrow> (fit sw k, int k))"
proof (cases part)
  case Nil
  then show ?thesis by (simp add: local_best_def)
next
  case (Cons a rest)
  have nn: "\<forall>i\<in>set part. fit sw i \<noteq> NaN" using assms by (auto simp: is_finite_iff)
  have "flt (fit sw a) PInf" using assms Cons by simp
  then have "\<not> (\<forall>i\<in>set part. \<not> flt (fit sw i) PInf)" using Cons by auto
  with local_scan_cases [OF nn, of PInf j]
  obtain pre k post where b: "part = pre @ k # post"
      "local_scan sw part (PInf, j) = (fit sw k, int k)"
      "\<forall>i\<in>set pre. flt (fit sw k) (fit sw i)" "\<forall>i\<in>set post. \<not> flt (fit sw i) (fit sw k)"
    by blast
  show ?thesis using local_best_decomp [OF b(3,4)] b(1,2) by simp
qed

lemma local_best_nonempty:
  assumes "part \<noteq> []" "\<forall>i\<in>set part. is_finite (fit sw i)"
  shows "\<exists>k. local_best sw part = Some k"
proof -
  obtain a rest where Cons: "part = a # rest" using assms(1) by (cases part) auto
  have nn: "\<forall>i\<in>set part. fit sw i \<noteq> NaN" using assms(2) by (auto simp: is_finite_iff)
  have "flt (fit sw a) PInf" using assms Cons by simp
  then have "\<not> (\<forall>i\<in>set part. \<not> flt (fit sw i) PInf)" using Cons by auto
  with local_scan_cases [OF nn, of PInf 0]
  obtain pre k post where b: "part = pre @ k # post"
      "\<forall>i\<in>set pre. flt (fit sw k) (fit sw i)" "\<forall>i\<in>set post. \<not> flt (fit sw i) (fit sw k)"
    by blast
  show ?thesis using local_best_decomp [OF b(2,3)] b(1) by simp
qed

lemma min_loop_in: "min_loop res ys \<in> set (res # ys)"
  by (induction ys arbitrary: res) auto

lemma min_loop_le:
  "\<forall>y\<in>set (res # ys). y \<noteq> NaN \<Longrightarrow> \<forall>y\<in>set (res # ys). \<not> flt y (min_loop res ys)"
proof (induction ys arbitrary: res)
  case Nil
  then show ?case by simp
next
  case (Cons y ys)
  let ?r = "if fgt res y then y else res"
  have nn: "\<forall>z\<in>set (?r # ys). z \<noteq> NaN" using Cons.prems by auto
  have ih: "\<forall>z\<in>set (?r # ys). \<not> flt z (min_loop ?r ys)" using Cons.IH [OF nn] .
  have m: "\<not> flt ?r (min_loop ?r ys)" using ih by simp
  have rn: "?r \<noteq> NaN" using nn by simp
  have "\<not> flt res ?r" "\<not> flt y ?r" by (auto simp: fgt_def dest: flt_trans)
  then have "\<not> flt res (min_loop ?r ys)" "\<not> flt y (min_loop ?r ys)"
    using not_flt_not_trans [OF m _ rn] by blast+
  then show ?case using ih by auto
qed

lemma fmin_is_min:
  assumes "ys \<noteq> []" "\<forall>y\<in>set ys. y \<noteq> NaN"
  shows "\<exists>m. fmin ys = Inr m \<and> is_min_of m ys"
proof -
  obtain y rest where ys: "ys = y # rest" using assms(1) by (cases ys) auto
  have "min_loop y ys \<in> set (y # ys)" by (rule min_loop_in)
  moreover have "\<forall>z\<in>set (y # ys). \<not> flt z (min_loop y ys)"
    by (rule min_loop_le) (use assms(2) ys in auto)
  ultimately show ?thesis using ys by (auto simp: fmin_def is_min_of_def)
qed

lemma merge_loop_last:
  "merge_loop m locals g0 =
     (case filter (\<lambda>l. feq (fst l) m) locals of [] \<Rightarrow> g0 | w # ws \<Rightarrow> snd (last (w # ws)))"
proof (induction m locals g0 rule: merge_loop.induct)
  case (1 fitness global_g)
  then show ?case by simp
next
  case (2 fitness lf lg locals global_g)
  then show ?case by (cases "filter (\<lambda>l. feq (fst l) fitness) locals") auto
qed


lemma map_filter_nth:
  "List.map_filter (\<lambda>t. f (parts ! t)) [0..<length parts] = List.map_filter f parts"
proof -
  have "List.map_filter f (map (\<lambda>t. parts ! t) [0..<length parts]) =
        List.map_filter (\<lambda>t. f (parts ! t)) [0..<length parts]"
    by (simp add: List.map_filter_def filter_map comp_def)
  then show ?thesis by (simp add: map_nth)
qed

lemma winners_agree:
  assumes "\<forall>t\<in>set ts. \<forall>k. local_best sw (parts ! t) = Some k \<longrightarrow> fit sw k \<noteq> NaN"
  shows "map snd (filter (\<lambda>l. feq (fst l) (Fin r))
            (map (\<lambda>t. case local_best sw (parts ! t) of None \<Rightarrow> (PInf, J t)
                        | Some k \<Rightarrow> (fit sw k, int k)) ts))
         = map int (filter (\<lambda>b. fit sw b = Fin r)
              (List.map_filter (\<lambda>t. local_best sw (parts ! t)) ts))"
  using assms
proof (induction ts)
  case Nil
  then show ?case by (simp add: List.map_filter_simps)
next
  case (Cons t ts)
  then show ?case
    by (cases "local_best sw (parts ! t)") (auto simp: List.map_filter_simps feq_eq)
qed

lemma set_map_filter: "set (List.map_filter f xs) = {y. \<exists>x\<in>set xs. f x = Some y}"
  by (induction xs) (auto simp: List.map_filter_simps split: option.splits)

lemma reducer_refines:
  assumes nt: "1 \<le> num_threads"
      and len: "length (reducer_schedule env (length sw) (nat num_threads)) = nat num_threads"
      and fin: "\<forall>part\<in>set (reducer_schedule env (length sw) (nat num_threads)). \<forall>i\<in>set part. is_finite (fit sw i)"
      and ne: "\<exists>part\<in>set (reducer_schedule env (length sw) (nat num_threads)). part \<noteq> []"
  shows "\<exists>k. spec_reduce sw (reducer_schedule env (length sw) (nat num_threads)) = Some k \<and>
             pso_get_best_fitness_omp env sw num_threads = Inr (int k)"
proof -
  define P where "P = nat num_threads"
  define parts where "parts = reducer_schedule env (length sw) (nat num_threads)"
  define J where "J = stack_g env"
  define E where "E = (\<lambda>t. case local_best sw (parts ! t) of None \<Rightarrow> (PInf, J t)
                        | Some k \<Rightarrow> (fit sw k, int k))"
  define L where "L = map E [0..<P]"
  define bests where "bests = List.map_filter (local_best sw) parts"
  have lenP: "length parts = P" and Ppos: "0 < P" using len nt by (auto simp: parts_def P_def)
  have fin': "\<And>t i. t < P \<Longrightarrow> i \<in> set (parts ! t) \<Longrightarrow> is_finite (fit sw i)"
    using fin lenP unfolding parts_def [symmetric] by (metis nth_mem)
  have locals: "map (\<lambda>t. local_scan sw (parts ! t) (PInf, J t)) [0..<P] = L"
    unfolding L_def E_def by (rule map_cong [OF refl]) (simp add: local_scan_best fin')
  have bests_set: "set bests = {k. \<exists>part\<in>set parts. local_best sw part = Some k}"
    by (simp add: bests_def set_map_filter)
  have bests_fin: "\<And>b. b \<in> set bests \<Longrightarrow> is_finite (fit sw b)"
    using fin local_best_Some unfolding bests_set parts_def [symmetric] by blast
  obtain b0 where b0: "b0 \<in> set bests"
    using ne fin local_best_nonempty [of _ sw] unfolding bests_set parts_def [symmetric] by blast
  have bests_alt: "bests = List.map_filter (\<lambda>t. local_best sw (parts ! t)) [0..<P]"
    unfolding bests_def lenP [symmetric] by (rule map_filter_nth [symmetric])
  have fsts: "set (map fst L) \<subseteq> insert PInf (fit sw ` set bests)"
  proof
    fix f assume "f \<in> set (map fst L)"
    then obtain t where t: "t < P" "f = fst (E t)" by (auto simp: L_def)
    show "f \<in> insert PInf (fit sw ` set bests)"
    proof (cases "local_best sw (parts ! t)")
      case None
      then show ?thesis using t by (simp add: E_def)
    next
      case (Some k)
      then have "k \<in> set bests" using t lenP by (auto simp: bests_set)
      then show ?thesis using t Some by (simp add: E_def)
    qed
  qed
  have fsts2: "fit sw ` set bests \<subseteq> set (map fst L)"
  proof
    fix f assume "f \<in> fit sw ` set bests"
    then obtain k part where k: "f = fit sw k" "part \<in> set parts" "local_best sw part = Some k"
      by (auto simp: bests_set)
    then obtain t where "t < P" "parts ! t = part" using lenP by (metis in_set_conv_nth)
    then have "fst (E t) = f" using k by (simp add: E_def)
    moreover have "E t \<in> set L" using \<open>t < P\<close> by (simp add: L_def)
    ultimately show "f \<in> set (map fst L)" by force
  qed
  have nonan: "\<forall>y\<in>set (map fst L). y \<noteq> NaN"
  proof
    fix y assume "y \<in> set (map fst L)"
    then have "y = PInf \<or> (\<exists>b\<in>set bests. y = fit sw b)" using fsts by blast
    then show "y \<noteq> NaN"
    proof
      assume "y = PInf" then show ?thesis by simp
    next
      assume "\<exists>b\<in>set bests. y = fit sw b"
      then have "is_finite y" using bests_fin by auto
      then show ?thesis by auto
    qed
  qed
  have Lne: "map fst L \<noteq> []" using Ppos by (simp add: L_def)
  obtain m where m: "fmin (map fst L) = Inr m" "is_min_of m (map fst L)"
    using fmin_is_min [OF Lne nonan] by blast
  have m_in: "m \<in> set (map fst L)" and m_le: "\<And>f. f \<in> set (map fst L) \<Longrightarrow> \<not> flt f m"
    using m(2) unfolding is_min_of_def by blast+
  have bests_in: "\<And>b. b \<in> set bests \<Longrightarrow> fit sw b \<in> set (map fst L)"
    using fsts2 by blast
  have "\<not> flt (fit sw b0) m" using m_le bests_in b0 by blast
  then have "m \<noteq> PInf" using bests_fin [OF b0] by auto
  then obtain b1 where b1: "b1 \<in> set bests" "m = fit sw b1"
    using m_in fsts by blast
  obtain r where r: "m = Fin r" using b1 bests_fin [of b1] by (auto simp: is_finite_iff)
  have min_iff: "is_min_of (fit sw b) (map (fit sw) bests) \<longleftrightarrow> fit sw b = m" if "b \<in> set bests" for b
  proof
    assume a: "is_min_of (fit sw b) (map (fit sw) bests)"
    have "fit sw b1 \<in> set (map (fit sw) bests)" using b1(1) by simp
    then have 1: "\<not> flt m (fit sw b)" using a b1(2) unfolding is_min_of_def by blast
    have 2: "\<not> flt (fit sw b) m" using m_le bests_in that by blast
    have "fit sw b \<noteq> NaN" using bests_fin [OF that] by auto
    moreover have "m \<noteq> NaN" using r by simp
    ultimately show "fit sw b = m" using flt_antisym [OF 2 1] by blast
  next
    assume a: "fit sw b = m"
    have "\<And>c. c \<in> set bests \<Longrightarrow> \<not> flt (fit sw c) m" using m_le bests_in by blast
    then show "is_min_of (fit sw b) (map (fit sw) bests)"
      using that unfolding a [symmetric] is_min_of_def by auto
  qed
  define winners where "winners = filter (\<lambda>b. fit sw b = m) bests"
  have winners_spec: "filter (\<lambda>b. is_min_of (fit sw b) (map (fit sw) bests)) bests = winners"
    unfolding winners_def by (rule filter_cong [OF refl]) (rule min_iff)
  have wne: "winners \<noteq> []" using b1 by (auto simp: winners_def filter_empty_conv)
  have spec: "spec_reduce sw parts = Some (last winners)"
    using wne winners_spec by (simp add: spec_reduce_def bests_def [symmetric] Let_def)
  have "\<forall>t\<in>set [0..<P]. \<forall>k. local_best sw (parts ! t) = Some k \<longrightarrow> fit sw k \<noteq> NaN"
    using local_best_Some fin' by (metis atLeastLessThan_iff is_finite.simps(2) set_upt)
  from winners_agree [OF this, of r J]
  have agree: "map snd (filter (\<lambda>l. feq (fst l) m) L) = map int winners"
    by (simp add: L_def E_def r winners_def bests_alt)
  then have fne: "filter (\<lambda>l. feq (fst l) m) L \<noteq> []" using wne by auto
  have "merge_loop m L (snd (L ! 0)) = snd (last (filter (\<lambda>l. feq (fst l) m) L))"
    using fne by (simp add: merge_loop_last split: list.splits)
  also have "\<dots> = last (map snd (filter (\<lambda>l. feq (fst l) m) L))"
    using fne by (simp add: last_map)
  also have "\<dots> = int (last winners)" using wne by (simp add: agree last_map)
  finally have ml: "merge_loop m L (snd (L ! 0)) = int (last winners)" .
  have "pso_get_best_fitness_omp env sw num_threads =
          (let locals = map (\<lambda>t. local_scan sw (parts ! t) (PInf, J t)) [0..<P]
           in case fmin (map fst locals) of Inl e \<Rightarrow> Inl e
              | Inr fitness \<Rightarrow> Inr (merge_loop fitness locals (snd (locals ! 0))))"
    using nt by (simp add: pso_get_best_fitness_omp_def parts_def P_def J_def Let_def)
  then have code: "pso_get_best_fitness_omp env sw num_threads = Inr (int (last winners))"
    unfolding locals Let_def by (simp add: m(1) ml)
  show ?thesis using spec code unfolding parts_def by blast
qed


lemma spec_reduce_min:
  assumes "spec_reduce sw parts = Some k"
      and "\<forall>part\<in>set parts. \<forall>i\<in>set part. is_finite (fit sw i)"
  shows "k \<in> set (concat parts) \<and> (\<forall>i\<in>set (concat parts). \<not> flt (fit sw i) (fit sw k))"
proof -
  define bests where "bests = List.map_filter (local_best sw) parts"
  define winners where
    "winners = filter (\<lambda>b. is_min_of (fit sw b) (map (fit sw) bests)) bests"
  have "winners \<noteq> []" "k = last winners"
    using assms(1) by (auto simp: spec_reduce_def Let_def bests_def winners_def split: if_splits)
  then have "k \<in> set winners" by simp
  then have kb: "k \<in> set bests" and kmin: "is_min_of (fit sw k) (map (fit sw) bests)"
    by (auto simp: winners_def)
  have bests_set: "set bests = {k. \<exists>part\<in>set parts. local_best sw part = Some k}"
    by (simp add: bests_def set_map_filter)
  obtain part where "part \<in> set parts" "local_best sw part = Some k"
    using kb bests_set by blast
  then have 1: "k \<in> set (concat parts)" using local_best_Some unfolding set_concat by blast
  have 2: "\<not> flt (fit sw i) (fit sw k)" if mem: "i \<in> set (concat parts)" for i
  proof -
    obtain part' where p: "part' \<in> set parts" "i \<in> set part'"
      using mem unfolding set_concat by blast
    then have "part' \<noteq> []" "\<forall>i\<in>set part'. is_finite (fit sw i)" using assms(2) by auto
    then obtain b where b: "local_best sw part' = Some b" using local_best_nonempty by blast
    then have bi: "\<not> flt (fit sw i) (fit sw b)" and bin: "b \<in> set part'"
      using local_best_Some p(2) by blast+
    have "b \<in> set bests" using b p(1) bests_set by blast
    then have "fit sw b \<in> set (map (fit sw) bests)" by simp
    then have kb: "\<not> flt (fit sw b) (fit sw k)" using kmin unfolding is_min_of_def by blast
    have "is_finite (fit sw b)" using assms(2) p(1) bin by blast
    then have "fit sw b \<noteq> NaN" by auto
    from not_flt_not_trans [OF kb bi this] show ?thesis .
  qed
  show ?thesis using 1 2 by blast
qed

lemma reducer_min:
  assumes "1 \<le> P" and "swarm \<noteq> []"
      and "valid_schedule (reducer_schedule env (length swarm) (nat P)) (length swarm) (nat P)"
      and "\<forall>particle\<in>set swarm. is_finite (p_fitness particle)"
  shows "\<exists>gb. pso_get_best_fitness_omp env swarm P = Inr gb \<and> 0 \<le> gb \<and> gb < int (length swarm) \<and>
           p_fitness (swarm ! nat gb) = Fin (Min (fval ` p_fitness ` set swarm))"
proof -
  let ?parts = "reducer_schedule env (length swarm) (nat P)"
  have len: "length ?parts = nat P" and cover: "set (concat ?parts) = {0..<length swarm}"
    using assms(3) unfolding valid_schedule_def by blast+
  have fin: "\<forall>part\<in>set ?parts. \<forall>i\<in>set part. is_finite (fit swarm i)"
  proof (intro ballI)
    fix part i assume "part \<in> set ?parts" "i \<in> set part"
    then have "i \<in> set (concat ?parts)" unfolding set_concat by blast
    then have "i \<in> {0..<length swarm}" by (simp only: cover)
    then have "i < length swarm" by simp
    then show "is_finite (fit swarm i)" using assms(4) by simp
  qed
  have "0 < length swarm" using assms(2) by simp
  then have "0 \<in> {0..<length swarm}" by simp
  then have "0 \<in> set (concat ?parts)" by (simp only: cover)
  then obtain part0 where part0: "part0 \<in> set ?parts" "0 \<in> set part0"
    unfolding set_concat by blast
  have "part0 \<noteq> []" using part0(2) by (cases part0) simp_all
  then have ne: "\<exists>part\<in>set ?parts. part \<noteq> []" using part0(1) by blast
  obtain k where k: "spec_reduce swarm ?parts = Some k"
      "pso_get_best_fitness_omp env swarm P = Inr (int k)"
    using reducer_refines [OF assms(1) len fin ne] by blast
  have smin: "k \<in> set (concat ?parts) \<and>
              (\<forall>i\<in>set (concat ?parts). \<not> flt (fit swarm i) (fit swarm k))"
    by (rule spec_reduce_min [OF k(1) fin])
  have kin: "k < length swarm" using smin unfolding cover by simp
  have kmin: "\<And>i. i < length swarm \<Longrightarrow> \<not> flt (fit swarm i) (fit swarm k)"
    using smin unfolding cover by simp
  have finn: "is_finite (fit swarm i)" if "i < length swarm" for i
    using assms(4) that nth_mem by blast
  obtain r where r: "fit swarm k = Fin r" using finn [OF kin] is_finite_iff by blast
  have "Min (fval ` p_fitness ` set swarm) = r"
  proof (rule Min_eqI)
    show "finite (fval ` p_fitness ` set swarm)" by simp
  next
    fix y assume "y \<in> fval ` p_fitness ` set swarm"
    then obtain i where i: "i < length swarm" "y = fval (fit swarm i)"
      by (auto simp: in_set_conv_nth)
    obtain s where s: "fit swarm i = Fin s" using finn [OF i(1)] is_finite_iff by blast
    show "r \<le> y" using kmin [OF i(1)] r s i(2) by simp
  next
    have "fval (p_fitness (swarm ! k)) = r" using r by simp
    then show "r \<in> fval ` p_fitness ` set swarm" using kin by (metis imageI nth_mem)
  qed
  then show ?thesis using k(2) kin r by simp
qed

lemma reducer_total:
  assumes "1 \<le> P"
  shows "\<exists>gb. pso_get_best_fitness_omp env sw P = Inr gb"
proof -
  define locals where "locals = map (\<lambda>t. local_scan sw (reducer_schedule env (length sw) (nat P) ! t)
                          (PInf, stack_g env t)) [0..<nat P]"
  have "length (map fst locals) = nat P" by (simp add: locals_def)
  then have "map fst locals \<noteq> []" using assms by auto
  then obtain y ys where "map fst locals = y # ys" by (cases "map fst locals") auto
  then have m: "fmin (map fst locals) = Inr (min_loop y (y # ys))" by (simp add: fmin_def)
  have "pso_get_best_fitness_omp env sw P =
          (case fmin (map fst locals) of Inl e \<Rightarrow> Inl e
           | Inr fitness \<Rightarrow> Inr (merge_loop fitness locals (snd (locals ! 0))))"
    unfolding pso_get_best_fitness_omp_def Let_def locals_def using assms by simp
  then show ?thesis unfolding m by simp
qed


subsection \<open>Running the definitions\<close>

lemma rnd_eval:
  "rnd f (numeral n) = classify f (ru f (numeral n))"
  "rnd f (- numeral n) = classify f (ru f (- numeral n))"
  "rnd f (numeral n / numeral m) = classify f (ru f (numeral n / numeral m))"
  "rnd f (- (numeral n / numeral m)) = classify f (ru f (- (numeral n / numeral m)))"
  "rnd f (1 / numeral m) = classify f (ru f (1 / numeral m))"
  "rnd f (- (1 / numeral m)) = classify f (ru f (- (1 / numeral m)))"
  "rnd f (- 1) = classify f (ru f (- 1))"
  by (rule rnd_def)+

lemma search_numeral:
  "search (numeral k) a lo =
     (if 2 powi (lo + 2 ^ pred_numeral k) \<le> a
      then search (pred_numeral k) a (lo + 2 ^ pred_numeral k)
      else search (pred_numeral k) a lo)"
  by (simp add: numeral_eq_Suc)

lemma search_1:
  "search 1 a lo = (if 2 powi (lo + 1) \<le> a then lo + 1 else lo)"
  by simp

lemmas fl_eval = rnd_eval classify_def ru_def round_at_def ulp_exp_def expo_def rne_def
  emax_def emin_def search_numeral search_1 Let_def float_of_int_def double_of_int_def fsub_def

lemma fill_uniform_numeral:
  "fill_uniform env lo hi (numeral k) seed =
     (let (u, seed1) = uniform_omp env lo hi seed;
          (us, seed2) = fill_uniform env lo hi (pred_numeral k) seed1
      in (u # us, seed2))"
  by (simp add: numeral_eq_Suc)

lemma fill_uniform_1:
  "fill_uniform env lo hi 1 seed =
     (let (u, seed1) = uniform_omp env lo hi seed in ([u], seed1))"
  by (simp add: split_def)

lemma replicate_numeral: "replicate (numeral k) x = x # replicate (pred_numeral k) x"
  by (simp add: numeral_eq_Suc)

lemmas run_defs = pso_init_omp_def init_particle_def demo_platform_def demo_rand_r_def
  static_schedule_def uniform_omp_def pso_eval_fitness_def pso_eval_booth_def rd_def
  blank_particle_def pso_get_best_fitness_omp_def fmin_def fgt_def broadcast_def Let_def
  split_def upt_rec fill_uniform_numeral fill_uniform_1 alloc_fill_def alloc_bytes_def
  bindE_def ideal_pow_def pso_iteration_def update_particle_def update_pbest_def
  step_dim_def draw_def new_velocity_def coef_w_def coef_c1_def coef_c2_def
  optimize_using_omp_def resample_def clamp_def replicate_numeral

lemmas reducer_defs = pso_get_best_fitness_omp_def demo_platform_def static_schedule_def
  fmin_def fgt_def Let_def upt_rec particle_at_def valid_schedule_def

text \<open>The runs on the sample platform.\<close>

lemma run_init: "pso_init_omp demo_platform ''booth'' 2 3 (Fin (- 10)) (Fin 10) 2 = Inr run_swarm0"
  by (simp add: run_defs fl_eval run_swarm0_def)

lemma run_iteration:
  "pso_iteration demo_platform ''booth'' (Fin (- 10)) (Fin 10) 2 0 run_swarm0 =
     Inr (run_swarm1, 0)"
  by (simp add: run_defs fl_eval run_swarm0_def run_swarm1_def)

lemma run_iteration_alt:
  "pso_iteration demo_platform3 ''booth'' (Fin (- 10)) (Fin 10) 2 0 run_swarm0 =
     Inr (run_swarm1_alt, 1)"
  by (simp add: run_defs fl_eval run_swarm0_def run_swarm1_alt_def demo_platform3_def)

lemma run_while:
  "pso_while demo_platform ''booth'' (Fin (- 10)) (Fin 10) 2 0 1 (run_swarm0, - 1) =
     Inr (run_swarm1, 0)"
  by (simp add: pso_while.simps run_iteration)


lemma demo_schedule_3_2: "valid_schedule (schedule demo_platform (nat 3) (nat 2)) (nat 3) (nat 2)"
  by (simp add: reducer_defs) (auto simp: upt_rec)

text \<open>
  C1. When every particle has a finite fitness and the team has between 1 and \<open>N\<close>
  threads, the reducer returns an index into the swarm, and the fitness of the particle
  there is the minimum of the fitness values of all \<open>N\<close> particles.
\<close>

theorem reducer_returns_minimum:
  assumes "1 \<le> P" and "P \<le> int (length swarm)"
      and "valid_schedule (reducer_schedule env (length swarm) (nat P)) (length swarm) (nat P)"
      and "\<forall>particle\<in>set swarm. is_finite (p_fitness particle)"
  shows "\<exists>gb. pso_get_best_fitness_omp env swarm P = Inr gb \<and> 0 \<le> gb \<and> gb < int (length swarm) \<and>
           p_fitness (swarm ! nat gb) = Fin (Min (fval ` p_fitness ` set swarm))"
proof -
  have ne: "swarm \<noteq> []" using assms(1,2) by auto
  show ?thesis by (rule reducer_min [OF assms(1) ne assms(3,4)])
qed

theorem reducer_returns_minimum_witness:
  "pso_get_best_fitness_omp demo_platform demo_swarm 2 = Inr 2 \<and>
   p_fitness (demo_swarm ! 2) = Fin 1 \<and> Min (fval ` p_fitness ` set demo_swarm) = 1"
proof -
  have h1: "(1::int) \<le> 2" by simp
  have h2: "(2::int) \<le> int (length demo_swarm)" by (simp add: demo_swarm_def)
  have h3: "valid_schedule (reducer_schedule demo_platform (length demo_swarm) (nat 2))
              (length demo_swarm) (nat 2)"
    by (simp add: reducer_defs demo_swarm_def) (auto simp: upt_rec)
  have h4: "\<forall>particle\<in>set demo_swarm. is_finite (p_fitness particle)"
    by (simp add: demo_swarm_def particle_at_def)
  have r: "pso_get_best_fitness_omp demo_platform demo_swarm 2 = Inr 2"
    by (simp add: reducer_defs demo_swarm_def)
  have f: "p_fitness (demo_swarm ! 2) = Fin 1" by (simp add: demo_swarm_def particle_at_def)
  from reducer_returns_minimum [OF h1 h2 h3 h4] r f
  show ?thesis by simp
qed

text \<open>
  For every non-empty swarm of finite fitness values and every schedule that hands each
  particle to exactly one of the \<open>P \<ge> 1\<close> threads, the reducer returns the index the
  two steps of the specification give: within a partition the first particle with the
  partition's minimum, across the workers the last worker whose local best equals the
  global minimum.
\<close>

lemma reducer_tie_break:
  assumes "1 \<le> P" and "swarm \<noteq> []"
      and "valid_schedule (reducer_schedule env (length swarm) (nat P)) (length swarm) (nat P)"
      and "\<forall>particle\<in>set swarm. is_finite (p_fitness particle)"
  shows "\<exists>k. spec_reduce swarm (reducer_schedule env (length swarm) (nat P)) = Some k \<and>
             pso_get_best_fitness_omp env swarm P = Inr (int k)"
proof -
  let ?parts = "reducer_schedule env (length swarm) (nat P)"
  have len: "length ?parts = nat P" and cover: "set (concat ?parts) = {0..<length swarm}"
    using assms(3) unfolding valid_schedule_def by blast+
  have fin: "\<forall>part\<in>set ?parts. \<forall>i\<in>set part. is_finite (fit swarm i)"
  proof (intro ballI)
    fix part i assume "part \<in> set ?parts" "i \<in> set part"
    then have "i \<in> set (concat ?parts)" unfolding set_concat by blast
    then have "i \<in> {0..<length swarm}" by (simp only: cover)
    then have "i < length swarm" by simp
    then show "is_finite (fit swarm i)" using assms(4) by simp
  qed
  have "0 \<in> {0..<length swarm}" using assms(2) by simp
  then have "0 \<in> set (concat ?parts)" by (simp only: cover)
  then obtain part0 where part0: "part0 \<in> set ?parts" "0 \<in> set part0"
    unfolding set_concat by blast
  have "part0 \<noteq> []" using part0(2) by (cases part0) simp_all
  then have ne: "\<exists>part\<in>set ?parts. part \<noteq> []" using part0(1) by blast
  show ?thesis by (rule reducer_refines [OF assms(1) len fin ne])
qed

text \<open>
  C2. On a swarm of one particle whose fitness is \<^verbatim>\<open>INFINITY\<close>, with one thread, the two
  steps of the specification give index 0 and the serial \<^verbatim>\<open>pso_get_best_fitness\<close>
  returns -1, but no fitness is below the initial local best, \<^verbatim>\<open>local_g[0]\<close> is never
  stored, and \<^verbatim>\<open>pso_get_best_fitness_omp\<close> returns what that cell held before: two
  platforms that differ in that content only give two results.
\<close>

theorem reducer_uninitialised_index:
  "valid_schedule (reducer_schedule demo_platform (length inf_swarm) (nat 1))
     (length inf_swarm) (nat 1) \<and>
   reducer_schedule demo_platform2 = reducer_schedule demo_platform \<and>
   spec_reduce inf_swarm (reducer_schedule demo_platform (length inf_swarm) (nat 1)) = Some 0 \<and>
   pso_get_best_fitness inf_swarm = - 1 \<and>
   pso_get_best_fitness_omp demo_platform inf_swarm 1 = Inr (- 7) \<and>
   pso_get_best_fitness_omp demo_platform2 inf_swarm 1 = Inr 5"
  by (simp add: reducer_defs inf_swarm_def demo_platform2_def spec_reduce_def local_best_def
      is_min_of_def List.map_filter_simps pso_get_best_fitness_def)

text \<open>
  C8. \<open>pso_eval_fitness\<close> returns 0 and stores the score of the named objective exactly
  when the name is one of the five known ones; for every other name it returns -1 and
  leaves the fitness cell as it was. (The particle is an argument that is only read;
  where the objective reads a cell the position vector does not have, the call is
  undefined behaviour.)
\<close>

theorem pso_eval_fitness_status:
  "(known_function f \<longrightarrow>
      pso_eval_fitness env f particle cell = bindE (score env f particle) (\<lambda>v. Inr (0, v))) \<and>
   (\<not> known_function f \<longrightarrow> pso_eval_fitness env f particle cell = Inr (- 1, cell)) \<and>
   (\<forall>status v. pso_eval_fitness env f particle cell = Inr (status, v) \<longrightarrow>
      (status = 0 \<longleftrightarrow> known_function f))"
  by (auto simp: pso_eval_fitness_def known_function_def score_def bindE_def split: sum.splits)

theorem pso_eval_fitness_status_witness:
  "known_function ''booth'' \<and>
   pso_eval_fitness demo_platform ''booth'' (particle_at 1 3 PInf) NaN = Inr (0, Fin 0) \<and>
   \<not> known_function ''sphere'' \<and>
   pso_eval_fitness demo_platform ''sphere'' (particle_at 1 3 PInf) NaN = Inr (- 1, NaN)"
proof -
  have s: "score demo_platform ''booth'' (particle_at 1 3 PInf) = Inr (Fin 0)"
    by (simp add: score_def pso_eval_booth_def rd_def particle_at_def bindE_def
        demo_platform_def ideal_pow_def fl_eval)
  show ?thesis
    using pso_eval_fitness_status [of "''booth''" demo_platform "particle_at 1 3 PInf" NaN]
          pso_eval_fitness_status [of "''sphere''" demo_platform "particle_at 1 3 PInf" NaN]
    by (simp add: known_function_def s bindE_def)
qed




text \<open>
  C10. With \<open>max_iter \<le> 0\<close> the loop runs no iteration and leaves the swarm and \<open>g = -1\<close>
  as they are; \<open>optimize_using_omp\<close> returns -1 whenever initialisation succeeds, whatever
  index initialisation stored in the particles.
\<close>

theorem optimize_zero_iterations:
  assumes "max_iter \<le> 0"
  shows "pso_while env function xmin xmax num_threads 0 max_iter (swarm, - 1) = Inr (swarm, - 1) \<and>
         optimize_using_omp env function ndim swarm_size xmin xmax max_iter num_threads =
           (case pso_init_omp env function ndim swarm_size xmin xmax num_threads of
              Inl (e, live) \<Rightarrow> Inl e
            | Inr swarm0 \<Rightarrow> Inr (- 1))"
proof -
  have w: "pso_while env function xmin xmax num_threads 0 max_iter (sw, - 1) = Inr (sw, - 1)" for sw
    using assms by (subst pso_while.simps) simp
  show ?thesis
    by (simp add: w optimize_using_omp_def split: sum.splits prod.splits)
qed

theorem optimize_zero_iterations_witness:
  "pso_init_omp demo_platform ''booth'' 2 3 (Fin (- 10)) (Fin 10) 2 = Inr run_swarm0 \<and>
   p_g (run_swarm0 ! 0) = 1 \<and>
   optimize_using_omp demo_platform ''booth'' 2 3 (Fin (- 10)) (Fin 10) 0 2 = Inr (- 1)"
proof -
  have h: "(0 :: int) \<le> 0" by simp
  have g: "p_g (run_swarm0 ! 0) = 1" by (simp add: run_swarm0_def)
  from optimize_zero_iterations
         [OF h, of demo_platform "''booth''" "Fin (- 10)" "Fin 10" 2 run_swarm0 2 3] run_init g
  show ?thesis by simp
qed

text \<open>
  C7. Two runs with the same configuration, the same value of \<^verbatim>\<open>time(NULL)\<close>, the same
  \<open>rand_r\<close>, the same mathematical library and the same schedule start from the same
  swarm, and their first iteration already differs in positions, velocities, fitness
  values and global-best index when the private copies of \<^verbatim>\<open>seed\<close> start from different
  contents: the clause \<^verbatim>\<open>private(seed)\<close> gives every thread a copy that is not
  initialised, so the value of \<^verbatim>\<open>time(NULL)\<close> never reaches the draws of the main loop.
\<close>

theorem private_seed_trajectories:
  "rand_r demo_platform3 = rand_r demo_platform \<and>
   RAND_MAX demo_platform3 = RAND_MAX demo_platform \<and>
   time_now demo_platform3 = time_now demo_platform \<and>
   schedule demo_platform3 = schedule demo_platform \<and>
   reducer_schedule demo_platform3 = reducer_schedule demo_platform \<and>
   c_pow demo_platform3 = c_pow demo_platform \<and>
   pso_init_omp demo_platform ''booth'' 2 3 (Fin (- 10)) (Fin 10) 2 = Inr run_swarm0 \<and>
   pso_init_omp demo_platform3 ''booth'' 2 3 (Fin (- 10)) (Fin 10) 2 = Inr run_swarm0 \<and>
   pso_iteration demo_platform ''booth'' (Fin (- 10)) (Fin 10) 2 0 run_swarm0 =
     Inr (run_swarm1, 0) \<and>
   pso_iteration demo_platform3 ''booth'' (Fin (- 10)) (Fin 10) 2 0 run_swarm0 =
     Inr (run_swarm1_alt, 1)"
proof -
  have "pso_init_omp demo_platform3 ''booth'' 2 3 (Fin (- 10)) (Fin 10) 2 = Inr run_swarm0"
    by (simp add: run_defs fl_eval run_swarm0_def demo_platform3_def)
  then show ?thesis
    using run_init run_iteration run_iteration_alt by (simp add: demo_platform3_def)
qed

end
